theory Spec2Isabelle
  imports Main
begin

section \<open>Python string operations used by the extractors\<close>

text \<open>
  A Python \<open>str\<close> is modelled as a \<open>string\<close>, one \<open>char\<close> per character: a \<open>char\<close>
  stands for a code point below 256, so \<open>length\<close> is Python's \<open>len\<close>.
\<close>

definition py_isspace :: "char \<Rightarrow> bool" where
  \<comment> \<open>the characters \<open>str.split()\<close> and \<open>str.strip()\<close> treat as whitespace:
     TAB, LF, VT, FF, CR, FS, GS, RS, US, SPACE, NEL, NBSP\<close>
  "py_isspace c = (let n = (of_char c :: nat) in
     (9 \<le> n \<and> n \<le> 13) \<or> (28 \<le> n \<and> n \<le> 32) \<or> n = 133 \<or> n = 160)"

definition py_lower_char :: "char \<Rightarrow> char" where
  \<comment> \<open>\<open>A\<close>..\<open>Z\<close> and the upper-case letters of Latin-1 move up by 32 (bit 5 is set)\<close>
  "py_lower_char c = (let n = (of_char c :: nat) in
     if (65 \<le> n \<and> n \<le> 90) \<or> (192 \<le> n \<and> n \<le> 222 \<and> n \<noteq> 215)
     then (case c of Char b0 b1 b2 b3 b4 b5 b6 b7 \<Rightarrow> Char b0 b1 b2 b3 b4 True b6 b7)
     else c)"

definition py_lower :: "string \<Rightarrow> string" where
  "py_lower s = map py_lower_char s"

definition py_startswith :: "string \<Rightarrow> string \<Rightarrow> bool" where
  "py_startswith s p = (take (length p) s = p)"

definition py_endswith :: "string \<Rightarrow> string \<Rightarrow> bool" where
  "py_endswith s p = (length p \<le> length s \<and> drop (length s - length p) s = p)"

definition py_endswith_any :: "string \<Rightarrow> string list \<Rightarrow> bool" where
  \<comment> \<open>\<open>s.endswith((p1, ..., pn))\<close>\<close>
  "py_endswith_any s ps = list_ex (py_endswith s) ps"

definition py_strip :: "string \<Rightarrow> string" where
  "py_strip s = dropWhile py_isspace (rev (dropWhile py_isspace (rev s)))"

fun py_split :: "string \<Rightarrow> string list" where
  \<comment> \<open>\<open>s.split()\<close>: the maximal runs of non-whitespace characters, in order\<close>
  "py_split [] = []"
| "py_split (c # cs) =
     (if py_isspace c then py_split cs
      else (case cs of
              [] \<Rightarrow> [[c]]
            | d # _ \<Rightarrow>
                if py_isspace d then [c] # py_split cs
                else (case py_split cs of [] \<Rightarrow> [[c]] | w # ws \<Rightarrow> (c # w) # ws)))"

fun py_join :: "string \<Rightarrow> string list \<Rightarrow> string" where
  \<comment> \<open>\<open>sep.join(xs)\<close>\<close>
  "py_join sep [] = []"
| "py_join sep [x] = x"
| "py_join sep (x # y # ys) = x @ sep @ py_join sep (y # ys)"

definition py_replace_char :: "char \<Rightarrow> char \<Rightarrow> string \<Rightarrow> string" where
  \<comment> \<open>\<open>s.replace(a, b)\<close> for one-character \<open>a\<close> and \<open>b\<close>\<close>
  "py_replace_char a b s = map (\<lambda>c. if c = a then b else c) s"

definition py_slice_to :: "int \<Rightarrow> string \<Rightarrow> string" where
  \<comment> \<open>\<open>s[:n]\<close>; a negative \<open>n\<close> counts from the end\<close>
  "py_slice_to n s =
     (if 0 \<le> n then take (nat n) s else take (length s - nat (- n)) s)"

definition first_line :: "string \<Rightarrow> string" where
  \<comment> \<open>\<open>s.split('\n')[0]\<close>\<close>
  "first_line s = takeWhile (\<lambda>c. c \<noteq> CHR 0x0A) s"

definition path_join :: "string \<Rightarrow> string \<Rightarrow> string" where
  \<comment> \<open>\<open>os.path.join(a, b)\<close>, POSIX flavour\<close>
  "path_join a b =
     (if py_startswith b ''/'' then b
      else if a = [] \<or> py_endswith a ''/'' then a @ b
      else a @ ''/'' @ b)"

fun splitext_root :: "string \<Rightarrow> string" where
  \<comment> \<open>\<open>os.path.splitext(name)[0]\<close> for a name without directory part: the name up to its
     last dot, unless only dots precede that dot\<close>
  "splitext_root name =
     (let stem = rev (drop 1 (dropWhile (\<lambda>c. c \<noteq> CHR ''.'') (rev name)))
      in if CHR ''.'' \<in> set name \<and> (\<exists>c \<in> set stem. c \<noteq> CHR ''.'') then stem else name)"

section \<open>The OCR engine as a black box\<close>

datatype ocr_result =
    OcrOk "string list"   \<comment> \<open>\<open>readtext\<close> returned; the recognised fragments \<open>r[1]\<close>, in order\<close>
  | OcrRaises string      \<comment> \<open>the engine raised; \<open>str(e)\<close>\<close>

type_synonym ocr_engine = "string \<Rightarrow> ocr_result"

section \<open>\<open>LRD_QT_EXT.py\<close>: text extraction and names\<close>

definition illegal_chars :: "char set" where
  \<comment> \<open>the character class of \<open>sanitize_filename\<close>'s pattern\<close>
  "illegal_chars = {CHR 0x5C, CHR ''/'', CHR ''*'', CHR ''?'', CHR '':'', CHR 0x22,
                    CHR ''<'', CHR ''>'', CHR ''|''}"

definition sanitize_filename :: "string \<Rightarrow> string" where
  "sanitize_filename name = filter (\<lambda>c. c \<notin> illegal_chars) name"

definition set_text_limit :: "int option \<Rightarrow> int \<Rightarrow> bool \<Rightarrow> int option" where
  \<comment> \<open>the new value of the global \<open>text_length_limit\<close>, from its current value, the number
     \<open>val\<close> the dialog returns (never below its \<open>min=0\<close>) and whether it was accepted\<close>
  "set_text_limit current val ok = (if ok then (if val = 0 then None else Some val) else current)"

definition no_text_found :: string where
  "no_text_found = ''[No text found]''"

definition OCRWorker_extract_text :: "int option \<Rightarrow> ocr_engine \<Rightarrow> string \<Rightarrow> string" where
  \<comment> \<open>\<open>OCRWorker._extract_text\<close>, with the global \<open>text_length_limit\<close> as first argument\<close>
  "OCRWorker_extract_text text_length_limit reader image_path =
     (case reader image_path of
        OcrRaises e \<Rightarrow> ''Error: '' @ e
      | OcrOk results \<Rightarrow>
          let text = py_join '' '' results;
              text = py_join '' '' (py_split text);
              text = (case text_length_limit of None \<Rightarrow> text | Some n \<Rightarrow> py_slice_to n text)
          in if py_strip text \<noteq> [] then py_strip text else no_text_found)"

definition folder_name_of :: "string \<Rightarrow> string" where
  \<comment> \<open>the subfolder name \<open>OCRWorker.run\<close> derives from an extracted text\<close>
  "folder_name_of extracted_text =
     (let n = sanitize_filename (py_replace_char CHR '' '' CHR ''_'' (take 50 extracted_text))
      in if n \<noteq> [] then n else ''Extracted'')"

section \<open>The tkinter variants: text extraction and names\<close>

definition extract_text_from_image :: "ocr_engine \<Rightarrow> string \<Rightarrow> string" where
  \<comment> \<open>the same in \<open>update.py\<close>, \<open>extra_button.py\<close> and \<open>extra_excel.prompt.py\<close>; the engine
     stands for the whole \<open>try\<close> body, the construction of the reader included\<close>
  "extract_text_from_image ocr image_path =
     (case ocr image_path of
        OcrRaises e \<Rightarrow> ''Error: '' @ e
      | OcrOk results \<Rightarrow> py_join [CHR 0x0A] results)"

definition name_from_text :: "string \<Rightarrow> string" where
  \<comment> \<open>\<open>extracted_text.split('\n')[0][:50].replace(" ", "_").replace("/", "_")\<close>, the
     folder name of \<open>extra_excel.prompt.py\<close> and the file stem of \<open>extra_button.py\<close>\<close>
  "name_from_text extracted_text =
     py_replace_char CHR ''/'' CHR ''_''
       (py_replace_char CHR '' '' CHR ''_'' (take 50 (first_line extracted_text)))"

section \<open>What a run does: effects, records and the world around it\<close>

type_synonym row = "(string \<times> string) list"
  \<comment> \<open>one record dict: its keys with their values, in insertion order\<close>

datatype effect =
    Makedirs string                \<comment> \<open>\<open>os.makedirs(path, exist_ok=True)\<close>\<close>
  | OpenWrite string               \<comment> \<open>\<open>open(path, "w")\<close>: the file is created or emptied\<close>
  | Write string string            \<comment> \<open>\<open>f.write(text)\<close> on the file open at the path\<close>
  | ToExcel string "row list"      \<comment> \<open>\<open>pd.DataFrame(records).to_excel(path)\<close>\<close>
  | PdfOutput string "string list" \<comment> \<open>\<open>pdf.output(path)\<close>, with the text of each page\<close>
  | ReadText string                \<comment> \<open>the OCR engine is run on the image at the path\<close>
  | ImagePreview string            \<comment> \<open>\<open>Image.open(path)\<close> shown as thumbnail\<close>
  | TextPreview string
  | FilePreview string             \<comment> \<open>the worker's signals\<close>
  | LogMsg string
  | FileDone string string
  | ProgressStep nat nat
  | ErrorMsg string
  | AllDone "row list" string
  | ShowError string string        \<comment> \<open>message boxes: title and text\<close>
  | ShowInfo string string
  | ShowWarning string string
  | SetMaximum nat                 \<comment> \<open>\<open>progress_bar["maximum"] = n\<close>\<close>
  | SetValue nat                   \<comment> \<open>\<open>progress_bar["value"] = n\<close>\<close>
  | LabelProgress nat nat          \<comment> \<open>the label \<open>Progress: i/total (..%)\<close>\<close>
  | LabelCanceled                  \<comment> \<open>the label \<open>Progress: Canceled\<close>\<close>
  | Startfile string
  | Uncaught string                \<comment> \<open>an exception leaves the function: the thread ends\<close>

fun is_fs_write :: "effect \<Rightarrow> bool" where
  "is_fs_write (Makedirs _) = True"
| "is_fs_write (OpenWrite _) = True"
| "is_fs_write (Write _ _) = True"
| "is_fs_write (ToExcel _ _) = True"
| "is_fs_write (PdfOutput _ _) = True"
| "is_fs_write _ = False"

text \<open>
  The surroundings of a run. Reading the source folder and the images may fail, as may
  loading the OCR model and the two writes the source guards with \<open>try\<close>; every other
  write to the output is taken to succeed.
\<close>

record world =
  listdir :: "string \<Rightarrow> string + string list"  \<comment> \<open>\<open>os.listdir\<close>; \<open>Inl (str e)\<close> when it raises\<close>
  isdir :: "string \<Rightarrow> bool"
  load_reader :: "string + ocr_engine"  \<comment> \<open>\<open>easyocr.Reader(["en"], gpu=False)\<close>, once per run\<close>
  ocr :: ocr_engine                     \<comment> \<open>reader built and run inside one \<open>try\<close>, per call\<close>
  image_opens :: "string \<Rightarrow> bool"        \<comment> \<open>\<open>Image.open(path)\<close> does not raise\<close>
  to_excel_error :: "string option"     \<comment> \<open>\<open>Some (str e)\<close> when \<open>to_excel\<close> raises\<close>
  save_error :: "string option"         \<comment> \<open>the guarded \<open>open\<close> of \<open>save_text_as_filename\<close>\<close>
  relpath :: "string \<Rightarrow> string \<Rightarrow> string"  \<comment> \<open>\<open>os.path.relpath\<close>\<close>

record run_state =
  records :: "row list"
  trace :: "effect list"

definition emit :: "effect list \<Rightarrow> ('a run_state_scheme) \<Rightarrow> ('a run_state_scheme)" where
  "emit es st = st\<lparr>trace := trace st @ es\<rparr>"

definition image_extensions :: "string list" where
  "image_extensions = [''.png'', ''.jpg'', ''.jpeg'', ''.bmp'', ''.tiff'']"

definition is_image_name :: "string \<Rightarrow> bool" where
  \<comment> \<open>\<open>f.lower().endswith((".png", ".jpg", ".jpeg", ".bmp", ".tiff"))\<close>\<close>
  "is_image_name f = py_endswith_any (py_lower f) image_extensions"

section \<open>\<open>LRD_QT_EXT.py\<close>: the worker's run\<close>

definition use_full_path :: bool where
  \<comment> \<open>the global of that name; nothing assigns it again\<close>
  "use_full_path = True"

definition no_folder_created :: string where
  "no_folder_created = ''[No folder created]''"

definition OCRWorker_file_step ::
  "world \<Rightarrow> int option \<Rightarrow> ocr_engine \<Rightarrow> string \<Rightarrow> string \<Rightarrow> nat \<Rightarrow> nat \<Rightarrow> string
     \<Rightarrow> run_state \<Rightarrow> run_state" where
  \<comment> \<open>the loop body of \<open>OCRWorker.run\<close> after the interruption check\<close>
  "OCRWorker_file_step w text_length_limit reader folder_path output_folder total_files
       idx file_name st =
     (let file_path = path_join folder_path file_name;
          st = emit [FilePreview file_path, LogMsg (''Processing: '' @ file_name),
                     ReadText file_path] st;
          extracted_text = OCRWorker_extract_text text_length_limit reader file_path;
          folder_path_final = path_join output_folder (folder_name_of extracted_text);
          text_file_path = path_join folder_path_final ''extracted_text.txt'';
          creates = (py_strip extracted_text \<noteq> [] \<and> \<not> py_startswith extracted_text ''Error'');
          st = (if creates
                then emit [Makedirs folder_path_final, OpenWrite text_file_path,
                           Write text_file_path extracted_text] st
                else st);
          saved_path = (if creates
                        then (if use_full_path then folder_path_final
                              else relpath w folder_path_final folder_path)
                        else no_folder_created);
          st = st\<lparr>records := records st @
                  [[(''File Name'', file_name), (''Extracted Text'', extracted_text),
                    (''Saved Path'', saved_path)]]\<rparr>
      in emit [FileDone file_path extracted_text, ProgressStep (idx + 1) total_files] st)"

fun OCRWorker_loop ::
  "world \<Rightarrow> (nat \<Rightarrow> bool) \<Rightarrow> int option \<Rightarrow> ocr_engine \<Rightarrow> string \<Rightarrow> string \<Rightarrow> nat \<Rightarrow> nat
     \<Rightarrow> string list \<Rightarrow> run_state \<Rightarrow> run_state" where
  \<comment> \<open>\<open>for idx, file_name in enumerate(files)\<close>; \<open>interrupted idx\<close> is what
     \<open>isInterruptionRequested()\<close> answers at the top of iteration \<open>idx\<close>\<close>
  "OCRWorker_loop w interrupted lim reader folder_path output_folder total_files idx [] st = st"
| "OCRWorker_loop w interrupted lim reader folder_path output_folder total_files idx
       (file_name # rest) st =
     (if interrupted idx then st
      else OCRWorker_loop w interrupted lim reader folder_path output_folder total_files
             (Suc idx) rest
             (OCRWorker_file_step w lim reader folder_path output_folder total_files
                idx file_name st))"

definition OCRWorker_files :: "world \<Rightarrow> string \<Rightarrow> string list option \<Rightarrow> string + string list" where
  \<comment> \<open>the file list of \<open>OCRWorker.run\<close>: the given files when there are some, else the
     images of the folder's listing\<close>
  "OCRWorker_files w folder_path specific_files =
     (case specific_files of
        Some fs \<Rightarrow> if fs \<noteq> [] then Inr fs
                   else map_sum id (filter is_image_name) (listdir w folder_path)
      | None \<Rightarrow> map_sum id (filter is_image_name) (listdir w folder_path))"

definition OCRWorker_run ::
  "world \<Rightarrow> (nat \<Rightarrow> bool) \<Rightarrow> int option \<Rightarrow> string \<Rightarrow> string list option \<Rightarrow> run_state" where
  "OCRWorker_run w interrupted text_length_limit folder_path specific_files =
     (case OCRWorker_files w folder_path specific_files of
        Inl e \<Rightarrow> \<lparr>records = [], trace = [ErrorMsg (''Invalid folder: '' @ e)]\<rparr>
      | Inr files \<Rightarrow>
          let total_files = length files in
          if total_files = 0
          then \<lparr>records = [],
                trace = [ErrorMsg ''No valid image files found in the selected folder.'']\<rparr>
          else
            let output_folder = path_join folder_path ''Extracted_Texts'';
                st = \<lparr>records = [], trace = [Makedirs output_folder]\<rparr>
            in (case load_reader w of
                  Inl e \<Rightarrow> emit [ErrorMsg (''Failed to load OCR model: '' @ e)] st
                | Inr reader \<Rightarrow>
                    let st = OCRWorker_loop w interrupted text_length_limit reader folder_path
                               output_folder total_files 0 files st;
                        excel_file_path = path_join output_folder ''extracted_texts.xlsx'';
                        st = (if records st \<noteq> []
                              then (case to_excel_error w of
                                      None \<Rightarrow>
                                        emit [ToExcel excel_file_path (records st),
                                              LogMsg (''Saved results to '' @ excel_file_path)] st
                                    | Some e \<Rightarrow>
                                        emit [ErrorMsg (''Failed writing Excel: '' @ e)] st)
                              else st)
                    in emit [AllDone (records st) output_folder] st))"

definition extract_bulk :: "world \<Rightarrow> (nat \<Rightarrow> bool) \<Rightarrow> int option \<Rightarrow> string \<Rightarrow> run_state" where
  \<comment> \<open>\<open>OCRApp.extract_bulk\<close> for a chosen folder: the worker is started without a file list\<close>
  "extract_bulk w interrupted text_length_limit folder_path =
     OCRWorker_run w interrupted text_length_limit folder_path None"

section \<open>The tkinter variants: bulk processing\<close>

datatype loop_exit =
    Exhausted   \<comment> \<open>the \<open>for\<close> loop ran over every file\<close>
  | Returned    \<comment> \<open>\<open>return\<close> inside the loop, on \<open>stop_process\<close>\<close>
  | Raised      \<comment> \<open>\<open>Image.open\<close> raised inside the loop\<close>

definition process_stopped :: "effect list" where
  \<comment> \<open>what the loops of \<open>update.py\<close> and \<open>extra_excel.prompt.py\<close> do before they return\<close>
  "process_stopped =
     [ShowInfo ''Process Stopped'' ''The extraction process was canceled.'',
      SetValue 0, LabelCanceled]"

definition no_images_found :: effect where
  "no_images_found =
     ShowInfo ''No Images Found'' ''No valid image files found in the selected folder.''"

definition invalid_folder :: effect where
  "invalid_folder = ShowError ''Error'' ''Selected folder is invalid.''"

subsection \<open>\<open>update.py\<close>\<close>

definition update_entry :: "string \<Rightarrow> string \<Rightarrow> string" where
  \<comment> \<open>\<open>f"{file_name}:\n{extracted_text}\n{'-'*40}\n"\<close>\<close>
  "update_entry file_name extracted_text =
     file_name @ [CHR '':'', CHR 0x0A] @ extracted_text @ [CHR 0x0A]
       @ replicate 40 CHR ''-'' @ [CHR 0x0A]"

fun update_loop ::
  "world \<Rightarrow> (nat \<Rightarrow> bool) \<Rightarrow> string \<Rightarrow> string \<Rightarrow> nat \<Rightarrow> nat \<Rightarrow> string list \<Rightarrow> effect list
     \<Rightarrow> loop_exit \<times> effect list" where
  \<comment> \<open>\<open>for i, file_name in enumerate(files)\<close> inside the \<open>with open(...)\<close>;
     \<open>stop i\<close> is the value of \<open>stop_process\<close> read at the top of iteration \<open>i\<close>\<close>
  "update_loop w stop folder_path output_file_path total_files i [] tr = (Exhausted, tr)"
| "update_loop w stop folder_path output_file_path total_files i (file_name # rest) tr =
     (if stop i then (Returned, tr @ process_stopped)
      else
        let file_path = path_join folder_path file_name;
            extracted_text = extract_text_from_image (ocr w) file_path;
            tr = tr @ [ReadText file_path,
                       Write output_file_path (update_entry file_name extracted_text),
                       SetValue (i + 1), LabelProgress (i + 1) total_files]
        in if image_opens w file_path
           then update_loop w stop folder_path output_file_path total_files (Suc i) rest
                  (tr @ [ImagePreview file_path])
           else (Raised, tr @ [Uncaught ''Image.open'']))"

definition process_bulk_images_update :: "world \<Rightarrow> (nat \<Rightarrow> bool) \<Rightarrow> string \<Rightarrow> effect list" where
  "process_bulk_images_update w stop folder_path =
     (if \<not> isdir w folder_path then [invalid_folder]
      else case listdir w folder_path of
        Inl e \<Rightarrow> [Uncaught e]
      | Inr names \<Rightarrow>
          let files = filter is_image_name names;
              total_files = length files
          in if total_files = 0 then [no_images_found]
             else
               let output_file_path = path_join folder_path ''extracted_texts.txt'';
                   tr = [SetMaximum total_files, LabelProgress 0 total_files,
                         OpenWrite output_file_path]
               in case update_loop w stop folder_path output_file_path total_files 0 files tr of
                    (Exhausted, tr) \<Rightarrow>
                      tr @ [ShowInfo ''Success''
                              (''All texts have been extracted and saved to '' @ output_file_path),
                            Startfile folder_path]
                  | (_, tr) \<Rightarrow> tr)"

subsection \<open>\<open>extra_excel.prompt.py\<close>\<close>

record excel_state = run_state +
  folder_path :: string  \<comment> \<open>the parameter \<open>folder_path\<close>, which the loop body assigns again\<close>

definition excel_save ::
  "string \<Rightarrow> string \<Rightarrow> string \<Rightarrow> string \<Rightarrow> excel_state \<Rightarrow> excel_state" where
  \<comment> \<open>the \<open>if save_option == ...\<close> chain of the loop body\<close>
  "excel_save save_option output_folder file_name extracted_text st =
     (if save_option = ''single_file''
      then st\<lparr>records := records st @
                 [[(''File Name'', file_name), (''Extracted Text'', extracted_text)]]\<rparr>
      else if save_option = ''separate_files''
      then
        let subfolder = path_join output_folder (splitext_root file_name);
            text_file_path = path_join subfolder ''extracted_text.txt'';
            st = emit [Makedirs subfolder, OpenWrite text_file_path,
                       Write text_file_path extracted_text] st
        in st\<lparr>records := records st @
                 [[(''File Name'', file_name), (''Saved Path'', text_file_path)]]\<rparr>
      else if save_option = ''extracted_name''
      then
        (if py_strip extracted_text \<noteq> []
         then
           let folder_name = name_from_text extracted_text;
               st = st\<lparr>folder_path := path_join output_folder folder_name\<rparr>;
               text_file_path = path_join (folder_path st) ''extracted_text.txt'';
               st = emit [Makedirs (folder_path st), OpenWrite text_file_path,
                          Write text_file_path extracted_text] st
           in st\<lparr>records := records st @
                    [[(''Extracted Name'', folder_name), (''Saved Path'', text_file_path)]]\<rparr>
         else st)
      else st)"

fun excel_loop ::
  "world \<Rightarrow> (nat \<Rightarrow> bool) \<Rightarrow> string \<Rightarrow> string \<Rightarrow> nat \<Rightarrow> nat \<Rightarrow> string list \<Rightarrow> excel_state
     \<Rightarrow> loop_exit \<times> excel_state" where
  "excel_loop w stop save_option output_folder total_files i [] st = (Exhausted, st)"
| "excel_loop w stop save_option output_folder total_files i (file_name # rest) st =
     (if stop i then (Returned, emit process_stopped st)
      else
        let file_path = path_join (folder_path st) file_name;
            extracted_text = extract_text_from_image (ocr w) file_path;
            st = emit [ReadText file_path] st;
            st = excel_save save_option output_folder file_name extracted_text st;
            st = emit [SetValue (i + 1), LabelProgress (i + 1) total_files] st
        in if image_opens w file_path
           then excel_loop w stop save_option output_folder total_files (Suc i) rest
                  (emit [ImagePreview file_path, TextPreview extracted_text] st)
           else (Raised, emit [Uncaught ''Image.open''] st))"

definition process_bulk_images_excel ::
  "world \<Rightarrow> (nat \<Rightarrow> bool) \<Rightarrow> string \<Rightarrow> string \<Rightarrow> excel_state" where
  \<comment> \<open>the OCR engine of the world is the one the chosen \<open>scan_mode\<close> selects\<close>
  "process_bulk_images_excel w stop folder save_option =
     (let st = \<lparr>records = [], trace = [], folder_path = folder\<rparr> in
      if \<not> isdir w folder then emit [invalid_folder] st
      else case listdir w folder of
        Inl e \<Rightarrow> emit [Uncaught e] st
      | Inr names \<Rightarrow>
          let files = filter is_image_name names;
              total_files = length files
          in if total_files = 0 then emit [no_images_found] st
             else
               let output_folder = path_join folder ''Extracted_Texts'';
                   st = emit [SetMaximum total_files, LabelProgress 0 total_files,
                              Makedirs output_folder] st
               in case excel_loop w stop save_option output_folder total_files 0 files st of
                    (Exhausted, st) \<Rightarrow>
                      emit [ToExcel (path_join output_folder ''extracted_texts.xlsx'') (records st),
                            ShowInfo ''Success''
                              (''All texts have been extracted and saved in '' @ output_folder),
                            Startfile output_folder] st
                  | (_, st) \<Rightarrow> st)"

subsection \<open>\<open>extra_button.py\<close>\<close>

record button_state =
  pages :: "string list"   \<comment> \<open>the text of each page added to the PDF\<close>
  effects :: "effect list"

fun button_loop ::
  "world \<Rightarrow> string \<Rightarrow> bool \<Rightarrow> nat \<Rightarrow> string list \<Rightarrow> button_state \<Rightarrow> button_state" where
  \<comment> \<open>\<open>for i, file_name in enumerate(files)\<close>: this loop reads no flag\<close>
  "button_loop w folder save_as_pdf i [] st = st"
| "button_loop w folder save_as_pdf i (file_name # rest) st =
     (let file_path = path_join folder file_name;
          extracted_text = extract_text_from_image (ocr w) file_path;
          text_file_path = path_join folder (splitext_root file_name @ ''.txt'');
          st = st\<lparr>effects := effects st @
                 [ReadText file_path, OpenWrite text_file_path,
                  Write text_file_path extracted_text]\<rparr>;
          st = (if save_as_pdf
                then st\<lparr>pages := pages st @
                          [file_name @ [CHR '':'', CHR 0x0A, CHR 0x0A] @ extracted_text]\<rparr>
                else st);
          st = st\<lparr>effects := effects st @ [SetValue (i + 1)]\<rparr>
      in button_loop w folder save_as_pdf (Suc i) rest st)"

definition process_bulk_images_button :: "world \<Rightarrow> string \<Rightarrow> bool \<Rightarrow> effect list" where
  "process_bulk_images_button w folder save_as_pdf =
     (if \<not> isdir w folder then [invalid_folder]
      else case listdir w folder of
        Inl e \<Rightarrow> [Uncaught e]
      | Inr names \<Rightarrow>
          let files = filter is_image_name names;
              total_files = length files
          in if total_files = 0 then [no_images_found]
             else
               let st = button_loop w folder save_as_pdf 0 files
                          \<lparr>pages = [], effects = [SetMaximum total_files]\<rparr>
               in if save_as_pdf
                  then
                    let pdf_file_path = path_join folder ''extracted_texts.pdf''
                    in effects st @
                         [PdfOutput pdf_file_path (pages st),
                          ShowInfo ''Success'' (''Texts saved as PDF at '' @ pdf_file_path)]
                  else effects st @
                         [ShowInfo ''Success'' ''Texts extracted and saved as .txt files.''])"

definition save_text_as_filename :: "world \<Rightarrow> string \<Rightarrow> string \<Rightarrow> effect list" where
  "save_text_as_filename w image_path folder =
     (let extracted_text = extract_text_from_image (ocr w) image_path in
      if py_strip extracted_text \<noteq> []
      then
        let filename = name_from_text extracted_text @ ''.txt'';
            save_path = path_join folder filename
        in (case save_error w of
              None \<Rightarrow> [ReadText image_path, OpenWrite save_path, Write save_path extracted_text,
                        ShowInfo ''Success'' (''File saved as: '' @ filename)]
            | Some e \<Rightarrow> [ReadText image_path,
                         ShowError ''Error'' (''Could not save file: '' @ e)])
      else [ReadText image_path,
            ShowWarning ''No Text Found'' ''No text detected in the image to save.''])"

section \<open>Normalisation as the specification words it\<close>

fun collapse_whitespace :: "string \<Rightarrow> string" where
  \<comment> \<open>every maximal run of whitespace becomes one space\<close>
  "collapse_whitespace [] = []"
| "collapse_whitespace [c] = [if py_isspace c then CHR '' '' else c]"
| "collapse_whitespace (c # d # cs) =
     (if py_isspace c
      then (if py_isspace d then collapse_whitespace (d # cs)
            else CHR '' '' # collapse_whitespace (d # cs))
      else c # collapse_whitespace (d # cs))"

definition spec_normalize :: "string \<Rightarrow> string" where
  \<comment> \<open>whitespace runs collapsed to single spaces, then leading and trailing whitespace
     trimmed\<close>
  "spec_normalize s = py_strip (collapse_whitespace s)"

section \<open>A small folder to run the programs on\<close>

definition demo_ocr :: ocr_engine where
  "demo_ocr p =
     (if p = ''/d/a.png'' then OcrOk [''Hello World'']
      else if p = ''/d/b.jpg'' then OcrRaises ''cause''
      else if p = ''/d/c.png'' then OcrOk []
      else if p = ''/d/q.png'' then OcrOk [''Who:  me?'']
      else OcrRaises ''No such file'')"

definition demo_world :: "string list \<Rightarrow> world" where
  \<comment> \<open>a folder with the given listing, in which every image opens and every write works\<close>
  "demo_world names =
     \<lparr>listdir = (\<lambda>_. Inr names), isdir = (\<lambda>_. True), load_reader = Inr demo_ocr,
      ocr = demo_ocr, image_opens = (\<lambda>_. True), to_excel_error = None, save_error = None,
      relpath = (\<lambda>path start. path)\<rparr>"

definition demo_world_no_model :: "string list \<Rightarrow> world" where
  \<comment> \<open>the same folder on a machine where the OCR model cannot be loaded\<close>
  "demo_world_no_model names = (demo_world names)\<lparr>load_reader := Inl ''no model''\<rparr>"

definition never :: "nat \<Rightarrow> bool" where
  \<comment> \<open>nobody asks to stop\<close>
  "never i = False"

definition stop_after :: "nat \<Rightarrow> nat \<Rightarrow> bool" where
  \<comment> \<open>the flag is set once \<open>k\<close> files have been processed\<close>
  "stop_after k i = (k \<le> i)"

section \<open>Auxiliary notions for the proofs\<close>

definition rtrim :: "string \<Rightarrow> string" where
  \<comment> \<open>trailing whitespace removed\<close>
  "rtrim s = rev (dropWhile py_isspace (rev s))"

definition words_joined :: "string \<Rightarrow> string" where
  "words_joined s = py_join '' '' (py_split s)"

definition column :: "string \<Rightarrow> row list \<Rightarrow> string list" where
  \<comment> \<open>the values the records hold under a key\<close>
  "column key rs = concat (map (\<lambda>r. map snd (filter (\<lambda>kv. fst kv = key) r)) rs)"

definition record_texts :: "row list \<Rightarrow> string list" where
  "record_texts rs = column ''Extracted Text'' rs"

fun stored_texts :: "effect \<Rightarrow> string list" where
  \<comment> \<open>the extracted texts an effect puts on disk\<close>
  "stored_texts (Write _ t) = [t]"
| "stored_texts (ToExcel _ rows) = record_texts rows"
| "stored_texts _ = []"

definition text_within :: "int \<Rightarrow> string \<Rightarrow> bool" where
  \<comment> \<open>at most \<open>N\<close> characters, or one of the two placeholders\<close>
  "text_within N t =
     (length t \<le> nat N \<or> t = no_text_found \<or> py_startswith t ''Error: '')"

definition texts_within :: "int \<Rightarrow> run_state \<Rightarrow> bool" where
  "texts_within N st =
     ((\<forall>t \<in> set (record_texts (records st)). text_within N t) \<and>
      (\<forall>e \<in> set (trace st). \<forall>t \<in> set (stored_texts e). text_within N t))"

fun dir_made :: "effect \<Rightarrow> string list" where
  "dir_made (Makedirs p) = [p]"
| "dir_made _ = []"

definition made_dirs :: "effect list \<Rightarrow> string list" where
  \<comment> \<open>the directories created, in order\<close>
  "made_dirs tr = concat (map dir_made tr)"

fun file_written :: "effect \<Rightarrow> (string \<times> string) list" where
  "file_written (Write p t) = [(p, t)]"
| "file_written _ = []"

definition written_files :: "effect list \<Rightarrow> (string \<times> string) list" where
  \<comment> \<open>what is written to which file, in order\<close>
  "written_files tr = concat (map file_written tr)"

fun file_opened :: "effect \<Rightarrow> string list" where
  "file_opened (OpenWrite p) = [p]"
| "file_opened _ = []"

definition opened_files :: "effect list \<Rightarrow> string list" where
  \<comment> \<open>the files created or emptied by \<open>open(path, "w")\<close>\<close>
  "opened_files tr = concat (map file_opened tr)"

fun path_read :: "effect \<Rightarrow> string list" where
  "path_read (ReadText p) = [p]"
| "path_read _ = []"

definition read_paths :: "effect list \<Rightarrow> string list" where
  \<comment> \<open>the images handed to the OCR engine, in order\<close>
  "read_paths tr = concat (map path_read tr)"

fun step_signalled :: "effect \<Rightarrow> (nat \<times> nat) list" where
  "step_signalled (ProgressStep i n) = [(i, n)]"
| "step_signalled _ = []"

definition progress_steps :: "effect list \<Rightarrow> (nat \<times> nat) list" where
  \<comment> \<open>the pairs (processed, total) the worker signals, in order\<close>
  "progress_steps tr = concat (map step_signalled tr)"

fun value_set :: "effect \<Rightarrow> nat list" where
  "value_set (SetValue v) = [v]"
| "value_set _ = []"

definition progress_values :: "effect list \<Rightarrow> nat list" where
  \<comment> \<open>the values given to the progress bar, in order\<close>
  "progress_values tr = concat (map value_set tr)"

fun maximum_set :: "effect \<Rightarrow> nat list" where
  "maximum_set (SetMaximum n) = [n]"
| "maximum_set _ = []"

definition progress_maxima :: "effect list \<Rightarrow> nat list" where
  \<comment> \<open>the maxima given to the progress bar, in order\<close>
  "progress_maxima tr = concat (map maximum_set tr)"

fun excel_write :: "effect \<Rightarrow> (string \<times> row list) list" where
  "excel_write (ToExcel p rows) = [(p, rows)]"
| "excel_write _ = []"

definition excel_writes :: "effect list \<Rightarrow> (string \<times> row list) list" where
  \<comment> \<open>the spreadsheets written, with their rows\<close>
  "excel_writes tr = concat (map excel_write tr)"

fun text_previewed :: "effect \<Rightarrow> string list" where
  "text_previewed (TextPreview t) = [t]"
| "text_previewed _ = []"

definition previewed_texts :: "effect list \<Rightarrow> string list" where
  \<comment> \<open>the extracted texts shown in the preview box, one per file whose step finished\<close>
  "previewed_texts tr = concat (map text_previewed tr)"

definition non_blank :: "string \<Rightarrow> bool" where
  \<comment> \<open>\<open>extracted_text.strip()\<close> is true\<close>
  "non_blank t = (py_strip t \<noteq> [])"

fun steps_taken :: "(nat \<Rightarrow> bool) \<Rightarrow> nat \<Rightarrow> nat \<Rightarrow> nat" where
  \<comment> \<open>how many of \<open>m\<close> files a loop starting at index \<open>idx\<close> passes before the flag is
     found set\<close>
  "steps_taken flag idx 0 = 0"
| "steps_taken flag idx (Suc m) =
     (if flag idx then 0 else Suc (steps_taken flag (Suc idx) m))"

section \<open>Facts about the string operations\<close>

lemma py_isspace_space: "py_isspace CHR '' ''"
  by (simp add: py_isspace_def)

lemma py_strip_idem: "py_strip (py_strip s) = py_strip s"
proof -
  define z where "z = dropWhile py_isspace (rev s)"
  define y where "y = dropWhile py_isspace (rev z)"
  have y: "py_strip s = y" by (simp add: py_strip_def y_def z_def)
  have hz: "z = [] \<or> \<not> py_isspace (hd z)"
    unfolding z_def by (metis hd_dropWhile)
  have hy: "y = [] \<or> \<not> py_isspace (hd y)"
    unfolding y_def by (metis hd_dropWhile)
  have ly: "y = [] \<or> \<not> py_isspace (last y)"
  proof (cases "y = []")
    case True then show ?thesis by simp
  next
    case False
    obtain p where p: "rev z = p @ y"
      unfolding y_def by (metis takeWhile_dropWhile_id)
    from False p have "z \<noteq> []" by auto
    with hz have "\<not> py_isspace (hd z)" by simp
    moreover from False p have "last y = last (rev z)" by simp
    moreover from \<open>z \<noteq> []\<close> have "last (rev z) = hd z" by (simp add: last_rev)
    ultimately show ?thesis by simp
  qed
  have "dropWhile py_isspace (rev y) = rev y"
    using ly by (cases "rev y") (auto simp: last_rev hd_rev)
  moreover have "dropWhile py_isspace y = y"
    using hy by (cases y) auto
  ultimately have "py_strip y = y" by (simp add: py_strip_def)
  with y show ?thesis by simp
qed

lemma sanitize_filename_clean: "set (sanitize_filename name) \<inter> illegal_chars = {}"
  by (auto simp: sanitize_filename_def)

text \<open>
  The models of \<open>endswith\<close> and \<open>split\<close> against their descriptions: a suffix is what
  remains after some stem, and the words of a text are non-empty, free of whitespace and
  together hold exactly its other characters, in order.
\<close>

lemma py_endswith_iff: "py_endswith s p \<longleftrightarrow> (\<exists>stem. s = stem @ p)"
proof
  assume "py_endswith s p"
  then have "s = take (length s - length p) s @ p"
    using append_take_drop_id [of "length s - length p" s] by (simp add: py_endswith_def)
  then show "\<exists>stem. s = stem @ p" ..
next
  assume "\<exists>stem. s = stem @ p"
  then show "py_endswith s p" by (auto simp: py_endswith_def)
qed

lemma is_image_name_iff:
  "is_image_name f \<longleftrightarrow> (\<exists>ext \<in> set image_extensions. \<exists>stem. py_lower f = stem @ ext)"
  by (simp add: is_image_name_def py_endswith_any_def list_ex_iff py_endswith_iff)

lemma py_split_Cons:
  "py_split (c # cs) =
     (if py_isspace c then py_split cs
      else if cs = [] \<or> py_isspace (hd cs) then [c] # py_split cs
      else (c # hd (py_split cs)) # tl (py_split cs))"
proof (cases cs)
  case Nil
  then show ?thesis by simp
next
  case (Cons d ds)
  show ?thesis
  proof (cases "py_isspace d")
    case True
    with Cons show ?thesis by simp
  next
    case False
    then have "py_split (d # ds) \<noteq> []"
      by (simp split: list.splits)
    with Cons False show ?thesis
      by (cases "py_split (d # ds)") simp_all
  qed
qed

lemma py_split_words:
  "w \<in> set (py_split s) \<Longrightarrow> w \<noteq> [] \<and> (\<forall>c \<in> set w. \<not> py_isspace c)"
proof (induction s arbitrary: w)
  case Nil
  then show ?case by simp
next
  case (Cons c cs)
  show ?case
  proof (cases "py_isspace c")
    case True
    with Cons show ?thesis by simp
  next
    case False
    note nc = False
    show ?thesis
    proof (cases "cs = [] \<or> py_isspace (hd cs)")
      case True
      with nc Cons.prems have "w = [c] \<or> w \<in> set (py_split cs)"
        by (simp add: py_split_Cons del: py_split.simps)
      with nc Cons.IH show ?thesis by auto
    next
      case False
      then have ne: "py_split cs \<noteq> []"
        by (cases cs) (simp_all split: list.splits)
      from False nc Cons.prems
      have "w = c # hd (py_split cs) \<or> w \<in> set (tl (py_split cs))"
        by (simp add: py_split_Cons del: py_split.simps)
      moreover have "hd (py_split cs) \<in> set (py_split cs)" using ne by simp
      moreover have "set (tl (py_split cs)) \<subseteq> set (py_split cs)"
        using ne by (cases "py_split cs") auto
      ultimately show ?thesis using nc Cons.IH by auto
    qed
  qed
qed

lemma py_split_concat: "concat (py_split s) = filter (\<lambda>c. \<not> py_isspace c) s"
proof (induction s)
  case Nil
  show ?case by simp
next
  case (Cons c cs)
  show ?case
  proof (cases "py_isspace c")
    case True
    with Cons show ?thesis by simp
  next
    case False
    note nc = False
    show ?thesis
    proof (cases "cs = [] \<or> py_isspace (hd cs)")
      case True
      with nc Cons show ?thesis
        by (simp add: py_split_Cons del: py_split.simps)
    next
      case False
      then have ne: "py_split cs \<noteq> []"
        by (cases cs) (simp_all split: list.splits)
      then have "concat (py_split cs) = hd (py_split cs) @ concat (tl (py_split cs))"
        by (cases "py_split cs") simp_all
      with False nc Cons show ?thesis
        by (simp add: py_split_Cons del: py_split.simps)
    qed
  qed
qed

lemma rtrim_Nil: "rtrim [] = []" by (simp add: rtrim_def)

lemma rtrim_Cons:
  "rtrim (c # cs) = (if py_isspace c \<and> (\<forall>x \<in> set cs. py_isspace x) then [] else c # rtrim cs)"
  by (auto simp: rtrim_def dropWhile_append)

lemma collapse_nonspace:
  "\<not> py_isspace c \<Longrightarrow> collapse_whitespace (c # cs) = c # collapse_whitespace cs"
  by (cases cs) auto

lemma collapse_all_space:
  "(\<forall>x \<in> set (collapse_whitespace s). py_isspace x) \<longleftrightarrow> (\<forall>x \<in> set s. py_isspace x)"
  by (induction s rule: collapse_whitespace.induct) (auto simp: py_isspace_space)

lemma py_split_Nil_iff: "py_split s = [] \<longleftrightarrow> (\<forall>x \<in> set s. py_isspace x)"
  by (induction s) (auto split: list.splits)

lemma py_join_Cons: "py_join sep (x # ys) = (if ys = [] then x else x @ sep @ py_join sep ys)"
  by (cases ys) auto

lemma words_joined_nonspace:
  "\<not> py_isspace c \<Longrightarrow> words_joined (c # cs) =
     (case cs of [] \<Rightarrow> [c] | d # _ \<Rightarrow>
        if py_isspace d
        then (if \<forall>x \<in> set cs. py_isspace x then [c] else c # CHR '' '' # words_joined cs)
        else c # words_joined cs)"
  by (auto simp: words_joined_def py_join_Cons py_split_Nil_iff split: list.splits)

lemma words_joined_space: "py_isspace c \<Longrightarrow> words_joined (c # cs) = words_joined cs"
  by (simp add: words_joined_def)

lemma words_joined_Nil: "words_joined [] = []"
  by (simp add: words_joined_def)

lemma rtrim_collapse:
  "rtrim (collapse_whitespace s) =
     (case s of [] \<Rightarrow> [] | c # _ \<Rightarrow>
        if py_isspace c
        then (if \<forall>x \<in> set s. py_isspace x then [] else CHR '' '' # words_joined s)
        else words_joined s)"
proof (induction s rule: collapse_whitespace.induct)
  case 1
  show ?case by (simp add: rtrim_Nil)
next
  case (2 c)
  show ?case by (simp add: rtrim_Cons rtrim_Nil py_isspace_space words_joined_nonspace words_joined_space words_joined_Nil)
next
  case (3 c d cs)
  show ?case
  proof (cases "py_isspace c")
    case True
    note c = True
    show ?thesis
    proof (cases "py_isspace d")
      case True
      with c 3 show ?thesis by (simp add: words_joined_space)
    next
      case False
      with c 3 show ?thesis
        by (simp add: words_joined_space rtrim_Cons collapse_all_space py_isspace_space)
    qed
  next
    case False
    with 3 show ?thesis
      by (simp del: collapse_whitespace.simps
               add: collapse_nonspace rtrim_Cons words_joined_nonspace [of c])
  qed
qed

lemma words_joined_head: "words_joined s = [] \<or> \<not> py_isspace (hd (words_joined s))"
proof (induction s)
  case Nil show ?case by (simp add: words_joined_Nil)
next
  case (Cons c cs)
  show ?case
  proof (cases "py_isspace c")
    case True with Cons show ?thesis by (simp add: words_joined_space)
  next
    case False then show ?thesis by (simp add: words_joined_nonspace split: list.splits)
  qed
qed

lemma dropWhile_words_joined: "dropWhile py_isspace (words_joined s) = words_joined s"
  using words_joined_head [of s] by (cases "words_joined s") auto

lemma join_split_normalizes: "py_join '' '' (py_split s) = spec_normalize s"
proof -
  have "spec_normalize s = dropWhile py_isspace (rtrim (collapse_whitespace s))"
    by (simp add: spec_normalize_def py_strip_def rtrim_def)
  also have "\<dots> = words_joined s"
  proof (cases s)
    case Nil
    then show ?thesis by (simp add: rtrim_Nil words_joined_Nil)
  next
    case (Cons c cs)
    have allsp: "(\<forall>x \<in> set s. py_isspace x) \<Longrightarrow> words_joined s = []"
      using py_split_Nil_iff [of s] by (simp add: words_joined_def)
    from Cons allsp show ?thesis
      by (auto simp: rtrim_collapse py_isspace_space dropWhile_words_joined)
  qed
  finally show ?thesis by (simp add: words_joined_def)
qed

lemma py_strip_normalize: "py_strip (spec_normalize s) = spec_normalize s"
  by (simp add: spec_normalize_def py_strip_idem)

section \<open>Names derived from extracted text\<close>

text \<open>
  C10. In \<open>LRD_QT_EXT.py\<close> the name of a subfolder created for a file is never empty: when
  sanitising the first 50 characters of the text, spaces replaced by underscores, leaves
  nothing, the name is \<open>Extracted\<close>. Every directory the loop body creates is the output
  folder joined with such a name.
\<close>

theorem folder_name_never_empty:
  "folder_name_of t \<noteq> [] \<and>
   (sanitize_filename (py_replace_char CHR '' '' CHR ''_'' (take 50 t)) = []
      \<longrightarrow> folder_name_of t = ''Extracted'') \<and>
   (Makedirs p \<in> set (trace (OCRWorker_file_step w lim reader folder out n idx f st))
      \<longrightarrow> Makedirs p \<in> set (trace st) \<or>
          (\<exists>name. name \<noteq> [] \<and> p = path_join out name))"
proof -
  have nonempty: "folder_name_of u \<noteq> []" for u
    by (simp add: folder_name_of_def Let_def)
  have "Makedirs p \<in> set (trace (OCRWorker_file_step w lim reader folder out n idx f st))
      \<Longrightarrow> Makedirs p \<in> set (trace st) \<or> (\<exists>u. p = path_join out (folder_name_of u))"
    by (auto simp: OCRWorker_file_step_def Let_def emit_def split: if_splits)
  with nonempty show ?thesis
    by (auto simp: folder_name_of_def Let_def)
qed

theorem folder_name_never_empty_witness:
  "sanitize_filename (py_replace_char CHR '' '' CHR ''_'' (take 50 ''??'')) = [] \<and>
   folder_name_of ''??'' = ''Extracted''"
  using folder_name_never_empty [of "''??''"]
  by (simp add: sanitize_filename_def illegal_chars_def py_replace_char_def)

text \<open>
  C6. \<open>sanitize_filename\<close> of \<open>LRD_QT_EXT.py\<close> removes every one of the nine characters
  (\<open>sanitize_filename_clean\<close>). The names \<open>extra_button.py\<close> and \<open>extra_excel.prompt.py\<close>
  derive from a text only have spaces and slashes replaced: for the text \<open>Who:  me?\<close>
  the file is \<open>Who:__me?.txt\<close> and the folder \<open>Who:__me?\<close>, with a colon and a question
  mark.
\<close>

theorem name_from_text_keeps_illegal_chars:
  "save_text_as_filename (demo_world []) ''/d/q.png'' ''/out'' =
     [ReadText ''/d/q.png'', OpenWrite ''/out/Who:__me?.txt'',
      Write ''/out/Who:__me?.txt'' ''Who:  me?'',
      ShowInfo ''Success'' ''File saved as: Who:__me?.txt''] \<and>
   Makedirs ''/d/Extracted_Texts/Who:__me?''
     \<in> set (trace (process_bulk_images_excel (demo_world [''q.png'']) never ''/d''
                     ''extracted_name'')) \<and>
   CHR '':'' \<in> illegal_chars \<and> CHR ''?'' \<in> illegal_chars"
  by code_simp

section \<open>Normalisation of the extracted text\<close>

text \<open>
  C3 (as amended). In \<open>LRD_QT_EXT.py\<close>, when the engine returns, the stored text is the
  fragments joined by spaces, with whitespace runs collapsed to single spaces and the ends
  trimmed; under a length limit that text is cut to the limit and trimmed again; when
  nothing is left the stored text is \<open>[No text found]\<close>. When the engine raises, the
  stored text is \<open>Error: <cause>\<close>. The tkinter variants store the fragments joined by
  newlines as they are: no normalisation, no sentinel.
\<close>

theorem extract_text_normalizes:
  "(reader p1 = OcrOk r1 \<longrightarrow>
      OCRWorker_extract_text None reader p1 =
        (if spec_normalize (py_join '' '' r1) = [] then no_text_found
         else spec_normalize (py_join '' '' r1))) \<and>
   (reader p2 = OcrOk r2 \<longrightarrow>
      OCRWorker_extract_text (Some n) reader p2 =
        (if py_strip (py_slice_to n (spec_normalize (py_join '' '' r2))) = [] then no_text_found
         else py_strip (py_slice_to n (spec_normalize (py_join '' '' r2))))) \<and>
   (reader p3 = OcrRaises e \<longrightarrow> OCRWorker_extract_text lim reader p3 = ''Error: '' @ e) \<and>
   (engine p4 = OcrOk r4 \<longrightarrow> extract_text_from_image engine p4 = py_join [CHR 0x0A] r4)"
  by (simp add: OCRWorker_extract_text_def extract_text_from_image_def Let_def
        join_split_normalizes py_strip_normalize)

theorem extract_text_normalizes_witness:
  "demo_ocr ''/d/q.png'' = OcrOk [''Who:  me?''] \<and>
   OCRWorker_extract_text None demo_ocr ''/d/q.png'' = ''Who: me?'' \<and>
   OCRWorker_extract_text (Some 4) demo_ocr ''/d/q.png'' = ''Who:'' \<and>
   demo_ocr ''/d/b.jpg'' = OcrRaises ''cause'' \<and>
   OCRWorker_extract_text None demo_ocr ''/d/b.jpg'' = ''Error: cause'' \<and>
   extract_text_from_image demo_ocr ''/d/q.png'' = ''Who:  me?''"
proof -
  have q: "demo_ocr ''/d/q.png'' = OcrOk [''Who:  me?'']" by (simp add: demo_ocr_def)
  have b: "demo_ocr ''/d/b.jpg'' = OcrRaises ''cause''" by (simp add: demo_ocr_def)
  have n: "spec_normalize ''Who:  me?'' = ''Who: me?''" by code_simp
  have s: "py_strip ''Who:'' = ''Who:''" by code_simp
  from extract_text_normalizes [of demo_ocr "''/d/q.png''" "[''Who:  me?'']" "''/d/q.png''"
      "[''Who:  me?'']" 4 "''/d/b.jpg''" "''cause''" None demo_ocr "''/d/q.png''" "[''Who:  me?'']"]
  show ?thesis using q b n s by (simp add: py_slice_to_def)
qed

text \<open>
  The tkinter variants keep the double space of \<open>Who:  me?\<close> and store the empty text
  of an image without text as it is.
\<close>

theorem tkinter_text_not_normalized:
  "extract_text_from_image demo_ocr ''/d/q.png'' \<noteq> spec_normalize ''Who:  me?'' \<and>
   records (process_bulk_images_excel (demo_world [''q.png'', ''c.png'']) never ''/d'' ''single_file'') =
     [[(''File Name'', ''q.png''), (''Extracted Text'', ''Who:  me?'')],
      [(''File Name'', ''c.png''), (''Extracted Text'', [])]]"
  by code_simp

section \<open>The text length limit\<close>

lemma length_py_strip: "length (py_strip s) \<le> length s"
proof -
  have "length (py_strip s) \<le> length (rev (dropWhile py_isspace (rev s)))"
    unfolding py_strip_def by (rule length_dropWhile_le)
  also have "\<dots> \<le> length (rev s)"
    using length_dropWhile_le [of py_isspace "rev s"] by simp
  finally show ?thesis by simp
qed

lemma extract_text_within:
  assumes "0 < N"
  shows "text_within N (OCRWorker_extract_text (Some N) reader p)"
proof (cases "reader p")
  case (OcrOk r)
  have "length (py_strip (py_slice_to N x)) \<le> nat N" for x
  proof -
    have "length (py_strip (py_slice_to N x)) \<le> length (py_slice_to N x)"
      by (rule length_py_strip)
    also have "\<dots> \<le> nat N" using assms by (simp add: py_slice_to_def)
    finally show ?thesis .
  qed
  with OcrOk show ?thesis
    by (simp add: OCRWorker_extract_text_def text_within_def Let_def)
next
  case (OcrRaises e)
  then show ?thesis
    by (simp add: OCRWorker_extract_text_def text_within_def py_startswith_def)
qed

lemma step_texts_within:
  assumes "0 < N" "texts_within N st"
  shows "texts_within N (OCRWorker_file_step w (Some N) reader folder out n idx f st)"
  using assms extract_text_within [OF assms(1), of reader "path_join folder f"]
  by (auto simp: texts_within_def OCRWorker_file_step_def Let_def emit_def record_texts_def column_def)

lemma loop_texts_within:
  assumes "0 < N"
  shows "texts_within N st \<Longrightarrow>
         texts_within N (OCRWorker_loop w intr (Some N) reader folder out n idx fs st)"
proof (induction fs arbitrary: idx st)
  case Nil
  then show ?case by simp
next
  case (Cons f fs)
  then show ?case by (simp add: step_texts_within [OF assms])
qed

lemma run_texts_within:
  assumes "0 < N"
  shows "texts_within N (OCRWorker_run w intr (Some N) folder sf)"
proof -
  have init: "texts_within N \<lparr>records = [], trace = [Makedirs d]\<rparr>" for d
    by (simp add: texts_within_def record_texts_def column_def)
  have fin: "texts_within N st \<Longrightarrow> texts_within N (emit [AllDone (records st) d] st)" for st d
    by (simp add: texts_within_def emit_def)
  have xl: "texts_within N st \<Longrightarrow>
     texts_within N (emit [ToExcel x (records st), LogMsg m] st)" for st x m
    by (simp add: texts_within_def emit_def)
  have er: "texts_within N st \<Longrightarrow> texts_within N (emit [ErrorMsg m] st)" for st m
    by (simp add: texts_within_def emit_def)
  show ?thesis
  proof (cases "OCRWorker_files w folder sf")
    case (Inl e)
    then show ?thesis
      by (simp add: OCRWorker_run_def texts_within_def record_texts_def column_def)
  next
    case (Inr files)
    show ?thesis
    proof (cases "files = []")
      case True
      with Inr show ?thesis
        by (simp add: OCRWorker_run_def texts_within_def record_texts_def column_def)
    next
      case False
      show ?thesis
      proof (cases "load_reader w")
        case (Inl e)
        with Inr False show ?thesis
          by (simp add: OCRWorker_run_def Let_def er init)
      next
        case (Inr reader)
        define st where "st = OCRWorker_loop w intr (Some N) reader folder
          (path_join folder ''Extracted_Texts'') (length files) 0 files
          \<lparr>records = [], trace = [Makedirs (path_join folder ''Extracted_Texts'')]\<rparr>"
        have "texts_within N st"
          unfolding st_def by (rule loop_texts_within [OF assms init])
        with \<open>OCRWorker_files w folder sf = Inr files\<close> False Inr show ?thesis
          by (auto simp: OCRWorker_run_def Let_def st_def [symmetric] fin xl er emit_def texts_within_def
                   split: option.splits)
      qed
    qed
  qed
qed

text \<open>
  C5 (as amended). With a text length limit \<open>N > 0\<close> in \<open>LRD_QT_EXT.py\<close>, every extracted
  text the run stores, in a record, in the spreadsheet or in a per-file text file, has at
  most \<open>N\<close> characters or is one of the two placeholders, \<open>[No text found]\<close> and
  \<open>Error: <cause>\<close>, which are stored whole. Entering 0 in the limit dialog clears the
  limit, any other number sets it, and without a limit a recognised text is stored in
  full.
\<close>

theorem limit_bounds_recognised_text:
  "(0 < N \<longrightarrow> texts_within N (OCRWorker_run w interrupted (Some N) folder specific)) \<and>
   set_text_limit current 0 True = None \<and>
   (v \<noteq> 0 \<longrightarrow> set_text_limit current v True = Some v) \<and>
   (reader p = OcrOk r \<and> spec_normalize (py_join '' '' r) \<noteq> []
      \<longrightarrow> OCRWorker_extract_text None reader p = spec_normalize (py_join '' '' r))"
  by (simp add: run_texts_within set_text_limit_def OCRWorker_extract_text_def Let_def
        join_split_normalizes py_strip_normalize)

theorem limit_bounds_recognised_text_witness:
  "(0::int) < 5 \<and>
   texts_within 5
     (OCRWorker_run (demo_world [''a.png'', ''b.jpg'', ''c.png'']) never (Some 5) ''/d'' None) \<and>
   record_texts (records
     (OCRWorker_run (demo_world [''a.png'', ''b.jpg'', ''c.png'']) never (Some 5) ''/d'' None)) =
     [''Hello'', ''Error: cause'', ''[No text found]''] \<and>
   set_text_limit None 7 True = Some 7 \<and>
   demo_ocr ''/d/a.png'' = OcrOk [''Hello World''] \<and>
   OCRWorker_extract_text None demo_ocr ''/d/a.png'' = ''Hello World''"
proof -
  have a: "demo_ocr ''/d/a.png'' = OcrOk [''Hello World'']"
    by (simp add: demo_ocr_def)
  have n: "spec_normalize (py_join '' '' [''Hello World'']) = ''Hello World''"
    by code_simp
  have r: "record_texts (records
     (OCRWorker_run (demo_world [''a.png'', ''b.jpg'', ''c.png'']) never (Some 5) ''/d'' None)) =
     [''Hello'', ''Error: cause'', ''[No text found]'']"
    by code_simp
  from limit_bounds_recognised_text
         [of 5 "demo_world [''a.png'', ''b.jpg'', ''c.png'']" never "''/d''" None None 7
             demo_ocr "''/d/a.png''" "[''Hello World'']"]
  show ?thesis using a n r by simp
qed

text \<open>
  With a limit of 5 the sentinel of an image without text and the marker of an image the
  engine fails on are stored with their 15 and 12 characters, in the records and, for the
  sentinel, in a per-file text file.
\<close>

theorem placeholders_exceed_limit:
  "length (OCRWorker_extract_text (Some 5) demo_ocr ''/d/c.png'') = 15 \<and>
   length (OCRWorker_extract_text (Some 5) demo_ocr ''/d/b.jpg'') = 12 \<and>
   record_texts (records
     (OCRWorker_run (demo_world [''c.png'', ''b.jpg'']) never (Some 5) ''/d'' None)) =
     [''[No text found]'', ''Error: cause''] \<and>
   Write ''/d/Extracted_Texts/[No_text_found]/extracted_text.txt'' ''[No text found]''
     \<in> set (trace (OCRWorker_run (demo_world [''c.png'', ''b.jpg'']) never (Some 5) ''/d'' None))"
  by code_simp

section \<open>Reading a trace\<close>

lemmas collectors = made_dirs_def written_files_def opened_files_def read_paths_def
  progress_steps_def progress_values_def progress_maxima_def excel_writes_def
  previewed_texts_def

lemma collect_Nil:
  "made_dirs [] = []" "written_files [] = []" "opened_files [] = []" "read_paths [] = []"
  "progress_steps [] = []" "progress_values [] = []" "progress_maxima [] = []"
  "excel_writes [] = []" "previewed_texts [] = []"
  by (simp_all add: collectors)

lemma collect_Cons:
  "made_dirs (e # es) = dir_made e @ made_dirs es"
  "written_files (e # es) = file_written e @ written_files es"
  "opened_files (e # es) = file_opened e @ opened_files es"
  "read_paths (e # es) = path_read e @ read_paths es"
  "progress_steps (e # es) = step_signalled e @ progress_steps es"
  "progress_values (e # es) = value_set e @ progress_values es"
  "progress_maxima (e # es) = maximum_set e @ progress_maxima es"
  "excel_writes (e # es) = excel_write e @ excel_writes es"
  "previewed_texts (e # es) = text_previewed e @ previewed_texts es"
  by (simp_all add: collectors)

lemma collect_append:
  "made_dirs (xs @ ys) = made_dirs xs @ made_dirs ys"
  "written_files (xs @ ys) = written_files xs @ written_files ys"
  "opened_files (xs @ ys) = opened_files xs @ opened_files ys"
  "read_paths (xs @ ys) = read_paths xs @ read_paths ys"
  "progress_steps (xs @ ys) = progress_steps xs @ progress_steps ys"
  "progress_values (xs @ ys) = progress_values xs @ progress_values ys"
  "progress_maxima (xs @ ys) = progress_maxima xs @ progress_maxima ys"
  "excel_writes (xs @ ys) = excel_writes xs @ excel_writes ys"
  "previewed_texts (xs @ ys) = previewed_texts xs @ previewed_texts ys"
  by (simp_all add: collectors)

lemmas collect = collect_Nil collect_Cons collect_append

section \<open>The loop of \<open>LRD_QT_EXT.py\<close>\<close>

lemma steps_taken_le: "steps_taken flag idx m \<le> m"
  by (induction m arbitrary: idx) auto

lemma steps_taken_never: "(\<forall>j. \<not> flag j) \<Longrightarrow> steps_taken flag idx m = m"
  by (induction m arbitrary: idx) auto

lemma steps_taken_first:
  "(\<forall>j < k. \<not> flag (idx + j)) \<Longrightarrow> flag (idx + k) \<Longrightarrow> k < m \<Longrightarrow> steps_taken flag idx m = k"
proof (induction m arbitrary: idx k)
  case 0
  then show ?case by simp
next
  case (Suc m)
  show ?case
  proof (cases k)
    case 0
    with Suc.prems show ?thesis by simp
  next
    case (Suc k')
    from Suc.prems(1) Suc have "\<not> flag idx" by (metis add.right_neutral zero_less_Suc)
    moreover have "steps_taken flag (Suc idx) m = k'"
    proof (rule Suc.IH)
      show "\<forall>j<k'. \<not> flag (Suc idx + j)"
        using Suc.prems(1) Suc by (metis Suc_less_eq add_Suc_shift)
      show "flag (Suc idx + k')" using Suc.prems(2) Suc by simp
      show "k' < m" using Suc.prems(3) Suc by simp
    qed
    ultimately show ?thesis using Suc by simp
  qed
qed

lemma step_records:
  "records (OCRWorker_file_step w lim reader folder out n idx f st) =
     records st @
       [[(''File Name'', f),
         (''Extracted Text'', OCRWorker_extract_text lim reader (path_join folder f)),
         (''Saved Path'',
            if non_blank (OCRWorker_extract_text lim reader (path_join folder f)) \<and>
               \<not> py_startswith (OCRWorker_extract_text lim reader (path_join folder f)) ''Error''
            then path_join out (folder_name_of
                   (OCRWorker_extract_text lim reader (path_join folder f)))
            else no_folder_created)]]"
  by (simp add: OCRWorker_file_step_def Let_def emit_def use_full_path_def non_blank_def)

lemma step_trace:
  "read_paths (trace (OCRWorker_file_step w lim reader folder out n idx f st)) =
     read_paths (trace st) @ [path_join folder f] \<and>
   progress_steps (trace (OCRWorker_file_step w lim reader folder out n idx f st)) =
     progress_steps (trace st) @ [(Suc idx, n)] \<and>
   excel_writes (trace (OCRWorker_file_step w lim reader folder out n idx f st)) =
     excel_writes (trace st)"
  by (simp add: OCRWorker_file_step_def Let_def emit_def collect)

lemma column_append: "column key (xs @ ys) = column key xs @ column key ys"
  by (simp add: column_def)

lemma step_names:
  "column ''File Name'' (records (OCRWorker_file_step w lim reader folder out n idx f st)) =
     column ''File Name'' (records st) @ [f] \<and>
   length (records (OCRWorker_file_step w lim reader folder out n idx f st)) =
     Suc (length (records st))"
  by (simp add: step_records column_append) (simp add: column_def)

lemma qt_loop_records:
  "column ''File Name'' (records (OCRWorker_loop w flag lim reader folder out n idx fs st)) =
     column ''File Name'' (records st) @ take (steps_taken flag idx (length fs)) fs \<and>
   length (records (OCRWorker_loop w flag lim reader folder out n idx fs st)) =
     length (records st) + steps_taken flag idx (length fs)"
proof (induction fs arbitrary: idx st)
  case Nil
  show ?case by simp
next
  case (Cons f fs)
  show ?case
    by (simp add: Cons step_names)
qed

lemma qt_loop_trace:
  "read_paths (trace (OCRWorker_loop w flag lim reader folder out n idx fs st)) =
     read_paths (trace st) @ map (path_join folder) (take (steps_taken flag idx (length fs)) fs) \<and>
   progress_steps (trace (OCRWorker_loop w flag lim reader folder out n idx fs st)) =
     progress_steps (trace st) @
       map (\<lambda>j. (Suc j, n)) [idx ..< idx + steps_taken flag idx (length fs)] \<and>
   excel_writes (trace (OCRWorker_loop w flag lim reader folder out n idx fs st)) =
     excel_writes (trace st)"
proof (induction fs arbitrary: idx st)
  case Nil
  show ?case by simp
next
  case (Cons f fs)
  show ?case
    by (simp add: Cons step_trace upt_rec [of idx])
qed

lemma qt_run_shape:
  fixes flag :: "nat \<Rightarrow> bool" and lim :: "int option"
  assumes "OCRWorker_files w folder sf = Inr files" and "files \<noteq> []"
    and "load_reader w = Inr reader"
  defines "r \<equiv> OCRWorker_run w flag lim folder sf"
    and "m \<equiv> steps_taken flag 0 (length files)"
    and "out \<equiv> path_join folder ''Extracted_Texts''"
  shows "column ''File Name'' (records r) = take m files"
    and "length (records r) = m"
    and "read_paths (trace r) = map (path_join folder) (take m files)"
    and "progress_steps (trace r) = map (\<lambda>j. (Suc j, length files)) [0 ..< m]"
    and "excel_writes (trace r) =
           (if m \<noteq> 0 \<and> to_excel_error w = None
            then [(path_join out ''extracted_texts.xlsx'', records r)] else [])"
    and "last (trace r) = AllDone (records r) out"
proof -
  define st where "st = OCRWorker_loop w flag lim reader folder out (length files) 0 files
      \<lparr>records = [], trace = [Makedirs out]\<rparr>"
  have names: "column ''File Name'' (records st) = take m files"
    and len: "length (records st) = m"
    using qt_loop_records [of w flag lim reader folder out "length files" 0 files
        "\<lparr>records = [], trace = [Makedirs out]\<rparr>"]
    by (simp_all add: st_def m_def column_def)
  have tr: "read_paths (trace st) = map (path_join folder) (take m files)"
    "progress_steps (trace st) = map (\<lambda>j. (Suc j, length files)) [0 ..< m]"
    "excel_writes (trace st) = []"
    using qt_loop_trace [of w flag lim reader folder out "length files" 0 files
        "\<lparr>records = [], trace = [Makedirs out]\<rparr>"]
    by (simp_all add: st_def m_def collect)
  have nonempty: "records st \<noteq> [] \<longleftrightarrow> m \<noteq> 0"
    using len by (cases "records st") auto
  have r: "r = emit [AllDone (records st) out]
      (if records st \<noteq> []
       then (case to_excel_error w of
               None \<Rightarrow> emit [ToExcel (path_join out ''extracted_texts.xlsx'') (records st),
                              LogMsg (''Saved results to '' @ path_join out ''extracted_texts.xlsx'')] st
             | Some e \<Rightarrow> emit [ErrorMsg (''Failed writing Excel: '' @ e)] st)
       else st)"
    using assms(1-3)
    by (simp add: r_def OCRWorker_run_def Let_def st_def out_def emit_def split: option.splits)
  have rec: "records r = records st"
    unfolding r by (simp add: emit_def split: option.splits)
  show "column ''File Name'' (records r) = take m files" using names rec by simp
  show "length (records r) = m" using len rec by simp
  show "read_paths (trace r) = map (path_join folder) (take m files)"
    unfolding r using tr(1) by (simp add: emit_def collect split: option.splits)
  show "progress_steps (trace r) = map (\<lambda>j. (Suc j, length files)) [0 ..< m]"
    unfolding r using tr(2) by (simp add: emit_def collect split: option.splits)
  show "excel_writes (trace r) =
           (if m \<noteq> 0 \<and> to_excel_error w = None
            then [(path_join out ''extracted_texts.xlsx'', records r)] else [])"
    unfolding rec unfolding r using tr(3) nonempty
    by (simp add: emit_def collect split: option.splits)
  show "last (trace r) = AllDone (records r) out"
    unfolding rec unfolding r by (simp add: emit_def)
qed

section \<open>The loops of the tkinter variants\<close>

lemma process_stopped_collect:
  "read_paths process_stopped = []" "written_files process_stopped = []"
  "progress_values process_stopped = [0]" "progress_maxima process_stopped = []"
  "opened_files process_stopped = []" "excel_writes process_stopped = []"
  "previewed_texts process_stopped = []" "made_dirs process_stopped = []"
  by (simp_all add: process_stopped_def collect)

lemma update_loop_open:
  assumes "\<forall>p. image_opens w p"
  shows
  "fst (update_loop w stop folder out n i fs tr) =
     (if steps_taken stop i (length fs) < length fs then Returned else Exhausted) \<and>
   read_paths (snd (update_loop w stop folder out n i fs tr)) =
     read_paths tr @ map (path_join folder) (take (steps_taken stop i (length fs)) fs) \<and>
   written_files (snd (update_loop w stop folder out n i fs tr)) =
     written_files tr @
       map (\<lambda>f. (out, update_entry f (extract_text_from_image (ocr w) (path_join folder f))))
         (take (steps_taken stop i (length fs)) fs) \<and>
   (steps_taken stop i (length fs) < length fs \<longrightarrow>
      (\<exists>tr'. snd (update_loop w stop folder out n i fs tr) = tr' @ process_stopped))"
proof (induction fs arbitrary: i tr)
  case Nil
  show ?case by simp
next
  case (Cons f fs)
  show ?case
  proof (cases "stop i")
    case True
    then show ?thesis by (simp add: collect process_stopped_collect)
  next
    case False
    with assms show ?thesis
      by (simp add: Cons Let_def collect)
  qed
qed

lemma update_loop_progress:
  "\<exists>m \<le> length fs.
     progress_values (snd (update_loop w stop folder out n i fs tr)) =
       progress_values tr @ map Suc [i ..< i + m] @
         (if fst (update_loop w stop folder out n i fs tr) = Returned then [0] else []) \<and>
     progress_maxima (snd (update_loop w stop folder out n i fs tr)) = progress_maxima tr \<and>
     opened_files (snd (update_loop w stop folder out n i fs tr)) = opened_files tr"
proof (induction fs arbitrary: i tr)
  case Nil
  show ?case by simp
next
  case (Cons f fs)
  show ?case
  proof (cases "stop i")
    case True
    then show ?thesis
      by (intro exI [of _ 0]) (simp add: collect process_stopped_collect)
  next
    case False
    note ns = False
    define tr1 where "tr1 = tr @ [ReadText (path_join folder f),
        Write out (update_entry f (extract_text_from_image (ocr w) (path_join folder f))),
        SetValue (i + 1), LabelProgress (i + 1) n]"
    show ?thesis
    proof (cases "image_opens w (path_join folder f)")
      case False
      with ns show ?thesis
        by (intro exI [of _ 1]) (simp add: Let_def collect)
    next
      case True
      from Cons [of "Suc i" "tr1 @ [ImagePreview (path_join folder f)]"]
      obtain m where m: "m \<le> length fs"
        "progress_values (snd (update_loop w stop folder out n (Suc i) fs
             (tr1 @ [ImagePreview (path_join folder f)]))) =
           progress_values (tr1 @ [ImagePreview (path_join folder f)]) @ map Suc [Suc i ..< Suc i + m] @
           (if fst (update_loop w stop folder out n (Suc i) fs
               (tr1 @ [ImagePreview (path_join folder f)])) = Returned then [0] else [])"
        "progress_maxima (snd (update_loop w stop folder out n (Suc i) fs
             (tr1 @ [ImagePreview (path_join folder f)]))) =
           progress_maxima (tr1 @ [ImagePreview (path_join folder f)])"
        "opened_files (snd (update_loop w stop folder out n (Suc i) fs
             (tr1 @ [ImagePreview (path_join folder f)]))) =
           opened_files (tr1 @ [ImagePreview (path_join folder f)])"
        by blast
      have loop: "update_loop w stop folder out n i (f # fs) tr =
          update_loop w stop folder out n (Suc i) fs (tr1 @ [ImagePreview (path_join folder f)])"
        using ns True by (simp add: Let_def tr1_def)
      have pv: "progress_values (tr1 @ [ImagePreview (path_join folder f)]) =
          progress_values tr @ [Suc i]"
        and pm: "progress_maxima (tr1 @ [ImagePreview (path_join folder f)]) = progress_maxima tr"
        and po: "opened_files (tr1 @ [ImagePreview (path_join folder f)]) = opened_files tr"
        by (simp_all add: tr1_def collect)
      have up: "[i ..< Suc (i + m)] = i # [Suc i ..< Suc (i + m)]"
        by (simp add: upt_rec [of i])
      show ?thesis
        unfolding loop
        by (intro exI [of _ "Suc m"]) (simp add: m pv pm po up del: upt_Suc)
    qed
  qed
qed

lemma excel_save_trace:
  "read_paths (trace (excel_save opt out f t st)) = read_paths (trace st)"
  "excel_writes (trace (excel_save opt out f t st)) = excel_writes (trace st)"
  "previewed_texts (trace (excel_save opt out f t st)) = previewed_texts (trace st)"
  by (simp_all add: excel_save_def Let_def emit_def collect)

lemma excel_save_records:
  "length (records (excel_save opt out f t st)) \<le> Suc (length (records st))"
  "opt = ''single_file'' \<or> opt = ''separate_files'' \<Longrightarrow>
     column ''File Name'' (records (excel_save opt out f t st)) =
       column ''File Name'' (records st) @ [f]"
  "opt = ''extracted_name'' \<Longrightarrow>
     length (records (excel_save opt out f t st)) =
       length (records st) + (if non_blank t then 1 else 0)"
  by (auto simp: excel_save_def Let_def emit_def column_def non_blank_def)

lemma excel_loop_open:
  assumes "\<forall>p. image_opens w p"
  shows
  "fst (excel_loop w stop opt out n i fs st) =
     (if steps_taken stop i (length fs) < length fs then Returned else Exhausted) \<and>
   length (read_paths (trace (snd (excel_loop w stop opt out n i fs st)))) =
     length (read_paths (trace st)) + steps_taken stop i (length fs) \<and>
   length (records (snd (excel_loop w stop opt out n i fs st))) \<le>
     length (records st) + steps_taken stop i (length fs) \<and>
   (steps_taken stop i (length fs) < length fs \<longrightarrow>
      (\<exists>tr'. trace (snd (excel_loop w stop opt out n i fs st)) = tr' @ process_stopped))"
proof (induction fs arbitrary: i st)
  case Nil
  show ?case by simp
next
  case (Cons f fs)
  show ?case
  proof (cases "stop i")
    case True
    then show ?thesis by (simp add: emit_def collect process_stopped_collect)
  next
    case False
    define t where "t = extract_text_from_image (ocr w) (path_join (folder_path st) f)"
    define st1 where "st1 = emit [ImagePreview (path_join (folder_path st) f), TextPreview t]
      (emit [SetValue (i + 1), LabelProgress (i + 1) n]
        (excel_save opt out f t (emit [ReadText (path_join (folder_path st) f)] st)))"
    have loop: "excel_loop w stop opt out n i (f # fs) st = excel_loop w stop opt out n (Suc i) fs st1"
      using False assms by (simp add: Let_def st1_def t_def)
    have r1: "length (read_paths (trace st1)) = Suc (length (read_paths (trace st)))"
      by (simp add: st1_def emit_def collect excel_save_trace)
    have l1: "length (records st1) \<le> Suc (length (records st))"
      using excel_save_records(1) [of opt out f t "emit [ReadText (path_join (folder_path st) f)] st"]
      by (simp add: st1_def emit_def)
    from Cons [of "Suc i" st1] False r1 l1 show ?thesis
      unfolding loop by auto
  qed
qed

lemma excel_loop_no_excel:
  "excel_writes (trace (snd (excel_loop w stop opt out n i fs st))) = excel_writes (trace st)"
proof (induction fs arbitrary: i st)
  case Nil
  show ?case by simp
next
  case (Cons f fs)
  show ?case
    by (simp add: Cons Let_def emit_def collect excel_save_trace process_stopped_collect)
qed

lemma excel_loop_exhausted_names:
  assumes "opt = ''single_file'' \<or> opt = ''separate_files''"
  shows "fst (excel_loop w stop opt out n i fs st) = Exhausted \<Longrightarrow>
     column ''File Name'' (records (snd (excel_loop w stop opt out n i fs st))) =
       column ''File Name'' (records st) @ fs"
proof (induction fs arbitrary: i st)
  case Nil
  show ?case by simp
next
  case (Cons f fs)
  from Cons.prems have ns: "\<not> stop i" and op: "image_opens w (path_join (folder_path st) f)"
    by (auto simp: Let_def split: if_splits)
  define t where "t = extract_text_from_image (ocr w) (path_join (folder_path st) f)"
  define st1 where "st1 = emit [ImagePreview (path_join (folder_path st) f), TextPreview t]
      (emit [SetValue (i + 1), LabelProgress (i + 1) n]
        (excel_save opt out f t (emit [ReadText (path_join (folder_path st) f)] st)))"
  have loop: "excel_loop w stop opt out n i (f # fs) st = excel_loop w stop opt out n (Suc i) fs st1"
    using ns op by (simp add: Let_def st1_def t_def)
  have n1: "column ''File Name'' (records st1) = column ''File Name'' (records st) @ [f]"
    using excel_save_records(2) [OF assms, of out f t "emit [ReadText (path_join (folder_path st) f)] st"]
    by (simp add: st1_def emit_def)
  from Cons.prems have "fst (excel_loop w stop opt out n (Suc i) fs st1) = Exhausted"
    unfolding loop .
  from Cons.IH [OF this] show ?case
    unfolding loop by (simp add: n1)
qed

lemma excel_loop_exhausted_named:
  assumes "opt = ''extracted_name''"
  shows "fst (excel_loop w stop opt out n i fs st) = Exhausted \<Longrightarrow>
     length (records (snd (excel_loop w stop opt out n i fs st))) +
         length (filter non_blank (previewed_texts (trace st))) =
       length (records st) +
         length (filter non_blank (previewed_texts (trace (snd (excel_loop w stop opt out n i fs st))))) \<and>
     length (previewed_texts (trace (snd (excel_loop w stop opt out n i fs st)))) =
       length (previewed_texts (trace st)) + length fs"
proof (induction fs arbitrary: i st)
  case Nil
  show ?case by simp
next
  case (Cons f fs)
  from Cons.prems have ns: "\<not> stop i" and op: "image_opens w (path_join (folder_path st) f)"
    by (auto simp: Let_def split: if_splits)
  define t where "t = extract_text_from_image (ocr w) (path_join (folder_path st) f)"
  define st1 where "st1 = emit [ImagePreview (path_join (folder_path st) f), TextPreview t]
      (emit [SetValue (i + 1), LabelProgress (i + 1) n]
        (excel_save opt out f t (emit [ReadText (path_join (folder_path st) f)] st)))"
  have loop: "excel_loop w stop opt out n i (f # fs) st = excel_loop w stop opt out n (Suc i) fs st1"
    using ns op by (simp add: Let_def st1_def t_def)
  have l1: "length (records st1) = length (records st) + (if non_blank t then 1 else 0)"
    using excel_save_records(3) [OF assms, of out f t "emit [ReadText (path_join (folder_path st) f)] st"]
    by (simp add: st1_def emit_def)
  have p1: "previewed_texts (trace st1) = previewed_texts (trace st) @ [t]"
    by (simp add: st1_def emit_def collect excel_save_trace)
  from Cons.prems have "fst (excel_loop w stop opt out n (Suc i) fs st1) = Exhausted"
    unfolding loop .
  from Cons.IH [OF this] show ?case
    unfolding loop by (cases "non_blank t") (simp_all add: l1 p1)
qed

lemma button_loop_reads:
  "read_paths (effects (button_loop w folder pdf i fs st)) =
     read_paths (effects st) @ map (path_join folder) fs"
proof (induction fs arbitrary: i st)
  case Nil
  show ?case by simp
next
  case (Cons f fs)
  show ?case
    by (simp add: Cons Let_def collect)
qed

section \<open>A folder without images\<close>

text \<open>
  C7. When the listing of the source folder has no entry whose lower-cased name ends in
  \<open>.png\<close>, \<open>.jpg\<close>, \<open>.jpeg\<close>, \<open>.bmp\<close> or \<open>.tiff\<close> (the filter \<open>is_image_name\<close>,
  put in these words by \<open>is_image_name_iff\<close>), the bulk operation of each of the four
  programs reports that no images were found and does nothing else: no directory is
  created and no file is opened or written.
\<close>

theorem no_images_no_writes:
  assumes "listdir w folder = Inr names"
    and "\<forall>f \<in> set names. \<not> is_image_name f"
  shows
    "extract_bulk w interrupted lim folder =
       \<lparr>records = [],
        trace = [ErrorMsg ''No valid image files found in the selected folder.'']\<rparr> \<and>
     (isdir w folder \<longrightarrow>
        process_bulk_images_update w stop folder = [no_images_found] \<and>
        trace (process_bulk_images_excel w stop folder save_option) = [no_images_found] \<and>
        records (process_bulk_images_excel w stop folder save_option) = [] \<and>
        process_bulk_images_button w folder save_as_pdf = [no_images_found]) \<and>
     filter is_fs_write (trace (extract_bulk w interrupted lim folder)) = [] \<and>
     filter is_fs_write (process_bulk_images_update w stop folder) = [] \<and>
     filter is_fs_write (trace (process_bulk_images_excel w stop folder save_option)) = [] \<and>
     filter is_fs_write (process_bulk_images_button w folder save_as_pdf) = []"
proof -
  from assms(2) have none: "filter is_image_name names = []"
    by (simp add: filter_empty_conv)
  have qt: "extract_bulk w interrupted lim folder =
       \<lparr>records = [],
        trace = [ErrorMsg ''No valid image files found in the selected folder.'']\<rparr>"
    using assms(1) none by (simp add: extract_bulk_def OCRWorker_run_def OCRWorker_files_def)
  have up: "process_bulk_images_update w stop folder =
      (if isdir w folder then [no_images_found] else [invalid_folder])"
    using assms(1) none by (simp add: process_bulk_images_update_def)
  have ex: "process_bulk_images_excel w stop folder save_option =
      \<lparr>records = [], trace = [if isdir w folder then no_images_found else invalid_folder],
       folder_path = folder\<rparr>"
    using assms(1) none by (simp add: process_bulk_images_excel_def emit_def)
  have bu: "process_bulk_images_button w folder save_as_pdf =
      (if isdir w folder then [no_images_found] else [invalid_folder])"
    using assms(1) none by (simp add: process_bulk_images_button_def)
  show ?thesis
    unfolding qt up ex bu by (simp add: no_images_found_def invalid_folder_def)
qed

theorem no_images_no_writes_witness:
  "listdir (demo_world [''notes.txt'', ''b.gif'']) ''/d'' = Inr [''notes.txt'', ''b.gif''] \<and>
   \<not> is_image_name ''notes.txt'' \<and> \<not> is_image_name ''b.gif'' \<and>
   trace (extract_bulk (demo_world [''notes.txt'', ''b.gif'']) never None ''/d'') =
     [ErrorMsg ''No valid image files found in the selected folder.''] \<and>
   process_bulk_images_update (demo_world [''notes.txt'', ''b.gif'']) never ''/d'' =
     [no_images_found]"
proof -
  have l: "listdir (demo_world [''notes.txt'', ''b.gif'']) ''/d'' = Inr [''notes.txt'', ''b.gif'']"
    by (simp add: demo_world_def)
  have n: "\<not> is_image_name ''notes.txt''" "\<not> is_image_name ''b.gif''"
    by code_simp+
  then have a: "\<forall>f \<in> set [''notes.txt'', ''b.gif'']. \<not> is_image_name f" by simp
  have d: "isdir (demo_world [''notes.txt'', ''b.gif'']) ''/d''"
    by (simp add: demo_world_def)
  from no_images_no_writes [OF l a, of never None never "''single_file''" False] d l n
  show ?thesis by simp
qed

section \<open>The scenario of two files\<close>

lemma extract_text_unlimited:
  "reader p = OcrOk r \<Longrightarrow>
   OCRWorker_extract_text None reader p =
     (if spec_normalize (py_join '' '' r) = [] then no_text_found
      else spec_normalize (py_join '' '' r))"
  by (simp add: OCRWorker_extract_text_def Let_def join_split_normalizes py_strip_normalize)

lemma extract_text_raises:
  "reader p = OcrRaises e \<Longrightarrow> OCRWorker_extract_text lim reader p = ''Error: '' @ e"
  by (simp add: OCRWorker_extract_text_def)

text \<open>
  C8. For a folder holding \<open>a.png\<close>, on which the engine returns \<open>Hello World\<close>, and
  \<open>b.jpg\<close>, on which it raises, with no length limit, \<open>LRD_QT_EXT.py\<close> creates two
  subfolders: \<open>Extracted_Texts\<close> in the source folder and, inside it, \<open>Hello_World\<close>
  for \<open>a.png\<close>, named from the sanitised text, whose file \<open>extracted_text.txt\<close>
  receives \<open>Hello World\<close>. The record of \<open>b.jpg\<close> has the text \<open>Error: <cause>\<close> and
  the saved path \<open>[No folder created]\<close>.
\<close>

theorem hello_world_scenario:
  assumes "listdir w folder = Inr [''a.png'', ''b.jpg'']"
    and "load_reader w = Inr reader"
    and "reader (path_join folder ''a.png'') = OcrOk [''Hello World'']"
    and "reader (path_join folder ''b.jpg'') = OcrRaises cause"
    and "\<forall>i. \<not> interrupted i"
  shows
    "records (extract_bulk w interrupted None folder) =
       [[(''File Name'', ''a.png''), (''Extracted Text'', ''Hello World''),
         (''Saved Path'', path_join (path_join folder ''Extracted_Texts'') ''Hello_World'')],
        [(''File Name'', ''b.jpg''), (''Extracted Text'', ''Error: '' @ cause),
         (''Saved Path'', ''[No folder created]'')]] \<and>
     made_dirs (trace (extract_bulk w interrupted None folder)) =
       [path_join folder ''Extracted_Texts'',
        path_join (path_join folder ''Extracted_Texts'') ''Hello_World''] \<and>
     written_files (trace (extract_bulk w interrupted None folder)) =
       [(path_join (path_join (path_join folder ''Extracted_Texts'') ''Hello_World'')
           ''extracted_text.txt'', ''Hello World'')]"
proof -
  have img: "is_image_name ''a.png''" "is_image_name ''b.jpg''"
    by code_simp+
  have n: "spec_normalize (py_join '' '' [''Hello World'']) = ''Hello World''"
    by code_simp
  have ta: "OCRWorker_extract_text None reader (path_join folder ''a.png'') = ''Hello World''"
    using extract_text_unlimited [of reader "path_join folder ''a.png''"] assms(3) n by simp
  have tb: "OCRWorker_extract_text None reader (path_join folder ''b.jpg'') = ''Error: '' @ cause"
    using extract_text_raises [of reader "path_join folder ''b.jpg''"] assms(4) by simp
  have sa: "py_strip ''Hello World'' \<noteq> []"
    "folder_name_of ''Hello World'' = ''Hello_World''"
    by code_simp+
  show ?thesis
    using assms(1,2,5) img
    by (simp add: extract_bulk_def OCRWorker_run_def OCRWorker_files_def Let_def
          OCRWorker_file_step_def ta tb sa py_startswith_def emit_def use_full_path_def no_folder_created_def
          collect split: option.splits)
qed

theorem hello_world_scenario_witness:
  "listdir (demo_world [''a.png'', ''b.jpg'']) ''/d'' = Inr [''a.png'', ''b.jpg''] \<and>
   load_reader (demo_world [''a.png'', ''b.jpg'']) = Inr demo_ocr \<and>
   demo_ocr (path_join ''/d'' ''a.png'') = OcrOk [''Hello World''] \<and>
   demo_ocr (path_join ''/d'' ''b.jpg'') = OcrRaises ''cause'' \<and>
   (\<forall>i. \<not> never i) \<and>
   records (extract_bulk (demo_world [''a.png'', ''b.jpg'']) never None ''/d'') =
       [[(''File Name'', ''a.png''), (''Extracted Text'', ''Hello World''),
         (''Saved Path'', ''/d/Extracted_Texts/Hello_World'')],
        [(''File Name'', ''b.jpg''), (''Extracted Text'', ''Error: cause''),
         (''Saved Path'', ''[No folder created]'')]] \<and>
   made_dirs (trace (extract_bulk (demo_world [''a.png'', ''b.jpg'']) never None ''/d'')) =
       [''/d/Extracted_Texts'', ''/d/Extracted_Texts/Hello_World''] \<and>
   written_files (trace (extract_bulk (demo_world [''a.png'', ''b.jpg'']) never None ''/d'')) =
       [(''/d/Extracted_Texts/Hello_World/extracted_text.txt'', ''Hello World'')]"
proof -
  have l: "listdir (demo_world [''a.png'', ''b.jpg'']) ''/d'' = Inr [''a.png'', ''b.jpg'']"
    and r: "load_reader (demo_world [''a.png'', ''b.jpg'']) = Inr demo_ocr"
    by (simp_all add: demo_world_def)
  have a: "demo_ocr (path_join ''/d'' ''a.png'') = OcrOk [''Hello World'']"
    and b: "demo_ocr (path_join ''/d'' ''b.jpg'') = OcrRaises ''cause''"
    by code_simp+
  have i: "\<forall>i. \<not> never i" by (simp add: never_def)
  have p: "path_join ''/d'' ''Extracted_Texts'' = ''/d/Extracted_Texts''"
    "path_join ''/d/Extracted_Texts'' ''Hello_World'' = ''/d/Extracted_Texts/Hello_World''"
    "path_join ''/d/Extracted_Texts/Hello_World'' ''extracted_text.txt'' =
       ''/d/Extracted_Texts/Hello_World/extracted_text.txt''"
    by code_simp+
  note run = hello_world_scenario [OF l r a b i, unfolded p, simplified]
  from run l r a b i show ?thesis
    by blast
qed

section \<open>Whole runs of the tkinter variants\<close>

lemma steps_taken_less_iff:
  "steps_taken flag idx m < m \<longleftrightarrow> (\<exists>j < m. flag (idx + j))"
proof (induction m arbitrary: idx)
  case 0
  show ?case by simp
next
  case (Suc m)
  show ?case
  proof (cases "flag idx")
    case True
    then show ?thesis by auto
  next
    case False
    have "(\<exists>j < Suc m. flag (idx + j)) \<longleftrightarrow> (\<exists>j < m. flag (Suc idx + j))"
    proof
      assume "\<exists>j < Suc m. flag (idx + j)"
      then obtain j where j: "j < Suc m" "flag (idx + j)" by blast
      with False have "j \<noteq> 0" by (cases j) auto
      then obtain j' where "j = Suc j'" by (cases j) auto
      with j show "\<exists>j < m. flag (Suc idx + j)" by auto
    next
      assume "\<exists>j < m. flag (Suc idx + j)"
      then obtain j where "j < m" "flag (Suc idx + j)" by blast
      then have "Suc j < Suc m" "flag (idx + Suc j)" by simp_all
      then show "\<exists>j < Suc m. flag (idx + j)" by blast
    qed
    with False Suc [of "Suc idx"] show ?thesis by simp
  qed
qed

lemma steps_taken_flagged: "flag idx \<Longrightarrow> steps_taken flag idx m = 0"
  by (cases m) auto

lemma steps_taken_unflagged: "\<not> flag idx \<Longrightarrow> 0 < m \<Longrightarrow> 0 < steps_taken flag idx m"
  by (cases m) auto

lemma update_loop_canceled:
  "LabelCanceled \<in> set (snd (update_loop w stop folder out n i fs tr)) \<longleftrightarrow>
     LabelCanceled \<in> set tr \<or> fst (update_loop w stop folder out n i fs tr) = Returned"
proof (induction fs arbitrary: i tr)
  case Nil
  show ?case by simp
next
  case (Cons f fs)
  show ?case
    by (simp add: Cons Let_def process_stopped_def)
qed

lemma update_run_unfold:
  assumes "isdir w folder" and "listdir w folder = Inr names"
    and "filter is_image_name names \<noteq> []"
  shows "process_bulk_images_update w stop folder =
     (case update_loop w stop folder (path_join folder ''extracted_texts.txt'')
             (length (filter is_image_name names)) 0 (filter is_image_name names)
             [SetMaximum (length (filter is_image_name names)),
              LabelProgress 0 (length (filter is_image_name names)),
              OpenWrite (path_join folder ''extracted_texts.txt'')] of
        (Exhausted, tr) \<Rightarrow>
          tr @ [ShowInfo ''Success''
                  (''All texts have been extracted and saved to '' @
                   path_join folder ''extracted_texts.txt''),
                Startfile folder]
      | (_, tr) \<Rightarrow> tr)"
  using assms by (simp add: process_bulk_images_update_def Let_def)

lemma update_run_cancelled:
  assumes "isdir w folder" and "listdir w folder = Inr names"
    and "\<forall>p. image_opens w p"
    and "k < length (filter is_image_name names)" and "\<forall>j < k. \<not> stop j" and "stop k"
  shows "read_paths (process_bulk_images_update w stop folder) =
           map (path_join folder) (take k (filter is_image_name names))"
    and "written_files (process_bulk_images_update w stop folder) =
           map (\<lambda>f. (path_join folder ''extracted_texts.txt'',
                      update_entry f (extract_text_from_image (ocr w) (path_join folder f))))
             (take k (filter is_image_name names))"
    and "\<exists>tr'. process_bulk_images_update w stop folder = tr' @ process_stopped"
proof -
  define files where "files = filter is_image_name names"
  define out where "out = path_join folder ''extracted_texts.txt''"
  define tr0 where "tr0 = [SetMaximum (length files), LabelProgress 0 (length files), OpenWrite out]"
  have ne: "files \<noteq> []" using assms(4) by (auto simp: files_def)
  have st: "steps_taken stop 0 (length files) = k"
    using steps_taken_first [of k stop 0 "length files"] assms(4-6) by (simp add: files_def)
  note L = update_loop_open [OF assms(3), of stop folder out "length files" 0 files tr0]
  from L st assms(4) have ex: "fst (update_loop w stop folder out (length files) 0 files tr0) = Returned"
    by (simp add: files_def)
  have run: "process_bulk_images_update w stop folder =
      snd (update_loop w stop folder out (length files) 0 files tr0)"
    using update_run_unfold [OF assms(1,2), of stop] ne ex
    by (simp add: files_def [symmetric] out_def [symmetric] tr0_def [symmetric] split: prod.splits)
  show "read_paths (process_bulk_images_update w stop folder) =
           map (path_join folder) (take k (filter is_image_name names))"
    unfolding run using L st by (simp add: tr0_def collect files_def)
  show "written_files (process_bulk_images_update w stop folder) =
           map (\<lambda>f. (path_join folder ''extracted_texts.txt'',
                      update_entry f (extract_text_from_image (ocr w) (path_join folder f))))
             (take k (filter is_image_name names))"
    unfolding run using L st by (simp add: tr0_def collect files_def out_def)
  show "\<exists>tr'. process_bulk_images_update w stop folder = tr' @ process_stopped"
    unfolding run using L st assms(4) by (simp add: files_def)
qed

lemma update_run_progress:
  assumes "isdir w folder" and "listdir w folder = Inr names"
    and "filter is_image_name names \<noteq> []"
  shows "progress_maxima (process_bulk_images_update w stop folder) =
           [length (filter is_image_name names)]"
    and "opened_files (process_bulk_images_update w stop folder) =
           [path_join folder ''extracted_texts.txt'']"
    and "\<exists>m \<le> length (filter is_image_name names).
           progress_values (process_bulk_images_update w stop folder) =
             map Suc [0 ..< m] @
             (if LabelCanceled \<in> set (process_bulk_images_update w stop folder) then [0] else [])"
proof -
  define files where "files = filter is_image_name names"
  define out where "out = path_join folder ''extracted_texts.txt''"
  define tr0 where "tr0 = [SetMaximum (length files), LabelProgress 0 (length files), OpenWrite out]"
  define res where "res = update_loop w stop folder out (length files) 0 files tr0"
  from update_loop_progress [of files w stop folder out "length files" 0 tr0]
  obtain m where m: "m \<le> length files"
    "progress_values (snd res) = map Suc [0 ..< m] @ (if fst res = Returned then [0] else [])"
    "progress_maxima (snd res) = [length files]"
    "opened_files (snd res) = [out]"
    by (auto simp: res_def tr0_def collect)
  have can: "LabelCanceled \<in> set (snd res) \<longleftrightarrow> fst res = Returned"
    using update_loop_canceled [of w stop folder out "length files" 0 files tr0]
    by (simp add: res_def tr0_def)
  have run: "process_bulk_images_update w stop folder =
      (if fst res = Exhausted
       then snd res @ [ShowInfo ''Success''
                  (''All texts have been extracted and saved to '' @ out), Startfile folder]
       else snd res)"
    using update_run_unfold [OF assms(1-3), of stop]
    by (simp add: files_def [symmetric] out_def [symmetric] tr0_def [symmetric] res_def [symmetric]
          split: prod.splits loop_exit.splits)
  show "progress_maxima (process_bulk_images_update w stop folder) =
           [length (filter is_image_name names)]"
    unfolding run using m(3) by (simp add: collect files_def)
  show "opened_files (process_bulk_images_update w stop folder) =
           [path_join folder ''extracted_texts.txt'']"
    unfolding run using m(4) by (simp add: collect out_def)
  have "progress_values (process_bulk_images_update w stop folder) =
             map Suc [0 ..< m] @
             (if LabelCanceled \<in> set (process_bulk_images_update w stop folder) then [0] else [])"
    unfolding run using m(2) can by (auto simp: collect)
  with m(1) show "\<exists>m \<le> length (filter is_image_name names).
           progress_values (process_bulk_images_update w stop folder) =
             map Suc [0 ..< m] @
             (if LabelCanceled \<in> set (process_bulk_images_update w stop folder) then [0] else [])"
    unfolding files_def by blast
qed

lemma excel_run_unfold:
  assumes "isdir w folder" and "listdir w folder = Inr names"
    and "filter is_image_name names \<noteq> []"
  shows "process_bulk_images_excel w stop folder opt =
     (case excel_loop w stop opt (path_join folder ''Extracted_Texts'')
             (length (filter is_image_name names)) 0 (filter is_image_name names)
             \<lparr>records = [],
              trace = [SetMaximum (length (filter is_image_name names)),
                       LabelProgress 0 (length (filter is_image_name names)),
                       Makedirs (path_join folder ''Extracted_Texts'')],
              folder_path = folder\<rparr> of
        (Exhausted, st) \<Rightarrow>
          emit [ToExcel (path_join (path_join folder ''Extracted_Texts'') ''extracted_texts.xlsx'')
                  (records st),
                ShowInfo ''Success''
                  (''All texts have been extracted and saved in '' @
                   path_join folder ''Extracted_Texts''),
                Startfile (path_join folder ''Extracted_Texts'')] st
      | (_, st) \<Rightarrow> st)"
  using assms by (simp add: process_bulk_images_excel_def Let_def emit_def)

lemma excel_run_open:
  fixes stop :: "nat \<Rightarrow> bool" and opt :: string
  assumes "isdir w folder" and "listdir w folder = Inr names"
    and "filter is_image_name names \<noteq> []"
    and "\<forall>p. image_opens w p"
  defines "r \<equiv> process_bulk_images_excel w stop folder opt"
    and "s \<equiv> steps_taken stop 0 (length (filter is_image_name names))"
  shows "length (read_paths (trace r)) = s"
    and "length (records r) \<le> s"
    and "s < length (filter is_image_name names) \<Longrightarrow> \<exists>tr'. trace r = tr' @ process_stopped"
    and "excel_writes (trace r) =
           (if s < length (filter is_image_name names) then []
            else [(path_join (path_join folder ''Extracted_Texts'') ''extracted_texts.xlsx'',
                   records r)])"
proof -
  define files where "files = filter is_image_name names"
  define out where "out = path_join folder ''Extracted_Texts''"
  define st0 where "st0 = \<lparr>records = [],
      trace = [SetMaximum (length files), LabelProgress 0 (length files), Makedirs out],
      folder_path = folder\<rparr>"
  define res where "res = excel_loop w stop opt out (length files) 0 files st0"
  note L = excel_loop_open [OF assms(4), of stop opt out "length files" 0 files st0,
      folded res_def]
  have ex: "fst res = (if s < length files then Returned else Exhausted)"
    using L by (simp add: s_def files_def)
  have nx: "excel_writes (trace (snd res)) = []"
    using excel_loop_no_excel [of w stop opt out "length files" 0 files st0]
    by (simp add: res_def st0_def collect)
  have run: "r = (if fst res = Exhausted
      then emit [ToExcel (path_join out ''extracted_texts.xlsx'') (records (snd res)),
                 ShowInfo ''Success'' (''All texts have been extracted and saved in '' @ out),
                 Startfile out] (snd res)
      else snd res)"
    unfolding r_def
    using excel_run_unfold [OF assms(1-3), of stop opt]
    by (simp add: files_def [symmetric] out_def [symmetric] st0_def [symmetric]
          res_def [symmetric] split: prod.splits loop_exit.splits)
  show "length (read_paths (trace r)) = s"
    unfolding run using L by (simp add: emit_def collect st0_def s_def files_def)
  show "length (records r) \<le> s"
    unfolding run using L by (simp add: emit_def st0_def s_def files_def)
  show "\<exists>tr'. trace r = tr' @ process_stopped" if "s < length (filter is_image_name names)"
    unfolding run using L that ex by (simp add: s_def files_def)
  show "excel_writes (trace r) =
           (if s < length (filter is_image_name names) then []
            else [(path_join (path_join folder ''Extracted_Texts'') ''extracted_texts.xlsx'',
                   records r)])"
    unfolding run using ex nx by (simp add: emit_def collect files_def out_def)
qed

lemma button_run_reads:
  assumes "isdir w folder" and "listdir w folder = Inr names"
  shows "read_paths (process_bulk_images_button w folder pdf) =
           map (path_join folder) (filter is_image_name names)"
proof (cases "filter is_image_name names = []")
  case True
  with assms show ?thesis
    by (simp add: process_bulk_images_button_def no_images_found_def collect)
next
  case False
  with assms show ?thesis
    using button_loop_reads [of w folder pdf 0 "filter is_image_name names"
        "\<lparr>pages = [], effects = [SetMaximum (length (filter is_image_name names))]\<rparr>"]
    by (cases pdf) (simp_all add: process_bulk_images_button_def Let_def collect)
qed

section \<open>One record per file\<close>

lemma excel_loop_exhausted_count:
  assumes "opt = ''single_file'' \<or> opt = ''separate_files''"
  shows "fst (excel_loop w stop opt out n i fs st) = Exhausted \<Longrightarrow>
     length (records (snd (excel_loop w stop opt out n i fs st))) =
       length (records st) + length fs"
proof (induction fs arbitrary: i st)
  case Nil
  show ?case by simp
next
  case (Cons f fs)
  from Cons.prems have ns: "\<not> stop i" and op: "image_opens w (path_join (folder_path st) f)"
    by (auto simp: Let_def split: if_splits)
  define t where "t = extract_text_from_image (ocr w) (path_join (folder_path st) f)"
  define st1 where "st1 = emit [ImagePreview (path_join (folder_path st) f), TextPreview t]
      (emit [SetValue (i + 1), LabelProgress (i + 1) n]
        (excel_save opt out f t (emit [ReadText (path_join (folder_path st) f)] st)))"
  have loop: "excel_loop w stop opt out n i (f # fs) st = excel_loop w stop opt out n (Suc i) fs st1"
    using ns op by (simp add: Let_def st1_def t_def)
  have l1: "length (records st1) = Suc (length (records st))"
    using assms by (auto simp: st1_def emit_def excel_save_def Let_def)
  from Cons.prems have "fst (excel_loop w stop opt out n (Suc i) fs st1) = Exhausted"
    unfolding loop .
  from Cons.IH [OF this] show ?case
    unfolding loop by (simp add: l1)
qed

text \<open>
  C1 (as amended). In \<open>LRD_QT_EXT.py\<close>, for a non-empty file set, when the OCR model
  loads and no interruption is requested, so that the loop runs to completion, the run
  produces exactly one record per input file, in order, also for a file on which the
  engine fails or finds no text; when the OCR model fails to load, the loop is not
  entered and the run ends with no record. In \<open>extra_excel.prompt.py\<close>, when the loop
  runs over every file, one record per file holds under the options \<open>single_file\<close> and
  \<open>separate_files\<close>; under \<open>extracted_name\<close> a file yields a record only when its
  extracted text is not blank, so the number of records is the number of non-blank texts
  among those of the files.
\<close>

theorem one_record_per_file:
  "(OCRWorker_files w folder specific = Inr files \<and> files \<noteq> [] \<and>
    load_reader w = Inr reader \<and> (\<forall>i. \<not> interrupted i)
      \<longrightarrow> column ''File Name'' (records (OCRWorker_run w interrupted lim folder specific)) = files \<and>
          length (records (OCRWorker_run w interrupted lim folder specific)) = length files) \<and>
   (OCRWorker_files v folder specific = Inr files \<and> files \<noteq> [] \<and> load_reader v = Inl e
      \<longrightarrow> OCRWorker_run v interrupted lim folder specific =
            \<lparr>records = [],
             trace = [Makedirs (path_join folder ''Extracted_Texts''),
                      ErrorMsg (''Failed to load OCR model: '' @ e)]\<rparr>) \<and>
   (fst (excel_loop w stop opt out n i fs st) = Exhausted \<and>
    (opt = ''single_file'' \<or> opt = ''separate_files'')
      \<longrightarrow> column ''File Name'' (records (snd (excel_loop w stop opt out n i fs st))) =
            column ''File Name'' (records st) @ fs \<and>
          length (records (snd (excel_loop w stop opt out n i fs st))) =
            length (records st) + length fs) \<and>
   (fst (excel_loop w stop ''extracted_name'' out n i fs st) = Exhausted
      \<longrightarrow> length (previewed_texts (trace (snd (excel_loop w stop ''extracted_name'' out n i fs st)))) =
            length (previewed_texts (trace st)) + length fs \<and>
          length (records (snd (excel_loop w stop ''extracted_name'' out n i fs st))) +
              length (filter non_blank (previewed_texts (trace st))) =
            length (records st) +
              length (filter non_blank
                (previewed_texts (trace (snd (excel_loop w stop ''extracted_name'' out n i fs st))))))"
proof (intro conjI impI)
  assume a: "OCRWorker_files w folder specific = Inr files \<and> files \<noteq> [] \<and>
    load_reader w = Inr reader \<and> (\<forall>i. \<not> interrupted i)"
  then have m: "steps_taken interrupted 0 (length files) = length files"
    by (simp add: steps_taken_never)
  from a show "column ''File Name'' (records (OCRWorker_run w interrupted lim folder specific)) = files"
    using qt_run_shape(1) [of w folder specific files reader interrupted lim] m by simp
  from a show "length (records (OCRWorker_run w interrupted lim folder specific)) = length files"
    using qt_run_shape(2) [of w folder specific files reader interrupted lim] m by simp
next
  assume "OCRWorker_files v folder specific = Inr files \<and> files \<noteq> [] \<and> load_reader v = Inl e"
  then show "OCRWorker_run v interrupted lim folder specific =
            \<lparr>records = [],
             trace = [Makedirs (path_join folder ''Extracted_Texts''),
                      ErrorMsg (''Failed to load OCR model: '' @ e)]\<rparr>"
    by (simp add: OCRWorker_run_def Let_def emit_def)
next
  assume b: "fst (excel_loop w stop opt out n i fs st) = Exhausted \<and>
    (opt = ''single_file'' \<or> opt = ''separate_files'')"
  then show "column ''File Name'' (records (snd (excel_loop w stop opt out n i fs st))) =
            column ''File Name'' (records st) @ fs"
    using excel_loop_exhausted_names [of opt w stop out n i fs st] by blast
  from b show "length (records (snd (excel_loop w stop opt out n i fs st))) =
            length (records st) + length fs"
    using excel_loop_exhausted_count [of opt w stop out n i fs st] by blast
next
  assume c: "fst (excel_loop w stop ''extracted_name'' out n i fs st) = Exhausted"
  note N = excel_loop_exhausted_named [OF refl c]
  from N show "length (previewed_texts (trace (snd (excel_loop w stop ''extracted_name'' out n i fs st)))) =
            length (previewed_texts (trace st)) + length fs"
    by blast
  from N show "length (records (snd (excel_loop w stop ''extracted_name'' out n i fs st))) +
              length (filter non_blank (previewed_texts (trace st))) =
            length (records st) +
              length (filter non_blank
                (previewed_texts (trace (snd (excel_loop w stop ''extracted_name'' out n i fs st)))))"
    by blast
qed

theorem one_record_per_file_witness:
  "OCRWorker_files (demo_world [''a.png'', ''b.jpg'', ''c.png'']) ''/d'' None =
     Inr [''a.png'', ''b.jpg'', ''c.png''] \<and>
   load_reader (demo_world [''a.png'', ''b.jpg'', ''c.png'']) = Inr demo_ocr \<and>
   (\<forall>i. \<not> never i) \<and>
   column ''File Name''
     (records (OCRWorker_run (demo_world [''a.png'', ''b.jpg'', ''c.png'']) never None ''/d'' None)) =
     [''a.png'', ''b.jpg'', ''c.png''] \<and>
   OCRWorker_files (demo_world_no_model [''a.png'', ''b.jpg'', ''c.png'']) ''/d'' None =
     Inr [''a.png'', ''b.jpg'', ''c.png''] \<and>
   [''a.png'', ''b.jpg'', ''c.png''] \<noteq> [] \<and>
   load_reader (demo_world_no_model [''a.png'', ''b.jpg'', ''c.png'']) = Inl ''no model'' \<and>
   OCRWorker_run (demo_world_no_model [''a.png'', ''b.jpg'', ''c.png'']) never None ''/d'' None =
     \<lparr>records = [],
      trace = [Makedirs ''/d/Extracted_Texts'', ErrorMsg ''Failed to load OCR model: no model'']\<rparr> \<and>
   fst (excel_loop (demo_world [''a.png'', ''b.jpg'', ''c.png'']) never ''single_file'' ''/d/Extracted_Texts'' 2 0
          [''c.png'', ''q.png''] \<lparr>records = [], trace = [], folder_path = ''/d''\<rparr>) = Exhausted \<and>
   column ''File Name''
     (records (snd (excel_loop (demo_world [''a.png'', ''b.jpg'', ''c.png'']) never ''single_file'' ''/d/Extracted_Texts'' 2 0
          [''c.png'', ''q.png''] \<lparr>records = [], trace = [], folder_path = ''/d''\<rparr>))) =
     [''c.png'', ''q.png''] \<and>
   fst (excel_loop (demo_world [''a.png'', ''b.jpg'', ''c.png'']) never ''extracted_name'' ''/d/Extracted_Texts'' 2 0
          [''c.png'', ''q.png''] \<lparr>records = [], trace = [], folder_path = ''/d''\<rparr>) = Exhausted \<and>
   length (records (snd (excel_loop (demo_world [''a.png'', ''b.jpg'', ''c.png'']) never ''extracted_name'' ''/d/Extracted_Texts'' 2 0
          [''c.png'', ''q.png''] \<lparr>records = [], trace = [], folder_path = ''/d''\<rparr>))) =
     length (filter non_blank (previewed_texts (trace
       (snd (excel_loop (demo_world [''a.png'', ''b.jpg'', ''c.png'']) never ''extracted_name'' ''/d/Extracted_Texts'' 2 0
          [''c.png'', ''q.png''] \<lparr>records = [], trace = [], folder_path = ''/d''\<rparr>)))))"
proof -
  have f: "OCRWorker_files (demo_world [''a.png'', ''b.jpg'', ''c.png'']) ''/d'' None =
     Inr [''a.png'', ''b.jpg'', ''c.png'']"
    by code_simp
  have r: "load_reader (demo_world [''a.png'', ''b.jpg'', ''c.png'']) = Inr demo_ocr"
    by (simp add: demo_world_def)
  have i: "\<forall>i. \<not> never i" by (simp add: never_def)
  have e1: "fst (excel_loop (demo_world [''a.png'', ''b.jpg'', ''c.png'']) never ''single_file'' ''/d/Extracted_Texts'' 2 0
          [''c.png'', ''q.png''] \<lparr>records = [], trace = [], folder_path = ''/d''\<rparr>) = Exhausted"
    by code_simp
  have e2: "fst (excel_loop (demo_world [''a.png'', ''b.jpg'', ''c.png'']) never ''extracted_name'' ''/d/Extracted_Texts'' 2 0
          [''c.png'', ''q.png''] \<lparr>records = [], trace = [], folder_path = ''/d''\<rparr>) = Exhausted"
    by code_simp
  note T = one_record_per_file [where w = "demo_world [''a.png'', ''b.jpg'', ''c.png'']"
      and folder = "''/d''" and specific = None and files = "[''a.png'', ''b.jpg'', ''c.png'']"
      and reader = demo_ocr and interrupted = never and lim = None and stop = never
      and v = "demo_world_no_model [''a.png'', ''b.jpg'', ''c.png'']" and e = "''no model''"
      and opt = "''single_file''" and out = "''/d/Extracted_Texts''" and n = 2 and i = 0
      and fs = "[''c.png'', ''q.png'']"
      and st = "\<lparr>records = [], trace = [], folder_path = ''/d''\<rparr>"]
  from T f r i have A: "column ''File Name''
     (records (OCRWorker_run (demo_world [''a.png'', ''b.jpg'', ''c.png'']) never None ''/d'' None)) =
     [''a.png'', ''b.jpg'', ''c.png'']"
    by blast
  from T e1 have B: "column ''File Name''
     (records (snd (excel_loop (demo_world [''a.png'', ''b.jpg'', ''c.png'']) never ''single_file'' ''/d/Extracted_Texts'' 2 0
          [''c.png'', ''q.png''] \<lparr>records = [], trace = [], folder_path = ''/d''\<rparr>))) =
     [''c.png'', ''q.png'']"
    by (simp add: column_def)
  from T e2 have C: "length (records (snd (excel_loop (demo_world [''a.png'', ''b.jpg'', ''c.png'']) never ''extracted_name'' ''/d/Extracted_Texts'' 2 0
          [''c.png'', ''q.png''] \<lparr>records = [], trace = [], folder_path = ''/d''\<rparr>))) =
     length (filter non_blank (previewed_texts (trace
       (snd (excel_loop (demo_world [''a.png'', ''b.jpg'', ''c.png'']) never ''extracted_name'' ''/d/Extracted_Texts'' 2 0
          [''c.png'', ''q.png''] \<lparr>records = [], trace = [], folder_path = ''/d''\<rparr>)))))"
    by (simp add: collect)
  have fv: "OCRWorker_files (demo_world_no_model [''a.png'', ''b.jpg'', ''c.png'']) ''/d'' None =
     Inr [''a.png'', ''b.jpg'', ''c.png'']"
    by code_simp
  have ne: "[''a.png'', ''b.jpg'', ''c.png''] \<noteq> []" by simp
  have rv: "load_reader (demo_world_no_model [''a.png'', ''b.jpg'', ''c.png'']) = Inl ''no model''"
    by (simp add: demo_world_no_model_def)
  have pj: "path_join ''/d'' ''Extracted_Texts'' = ''/d/Extracted_Texts''"
    by code_simp
  note T2 = mp [OF T [THEN conjunct2, THEN conjunct1] conjI [OF fv conjI [OF ne rv]]]
  from T2 have D: "OCRWorker_run (demo_world_no_model [''a.png'', ''b.jpg'', ''c.png'']) never None ''/d'' None =
     \<lparr>records = [],
      trace = [Makedirs ''/d/Extracted_Texts'', ErrorMsg ''Failed to load OCR model: no model'']\<rparr>"
    by (simp add: pj)
  from f r i A fv ne rv D e1 B e2 C show ?thesis by blast
qed

text \<open>
  Under \<open>extracted_name\<close>, \<open>extra_excel.prompt.py\<close> processes the two files of the folder,
  writes the spreadsheet and ends normally, with one record: \<open>c.png\<close>, in which the engine
  finds no text, has none.
\<close>

theorem blank_text_yields_no_record:
  "read_paths (trace (process_bulk_images_excel (demo_world [''c.png'', ''q.png'']) never ''/d''
      ''extracted_name'')) = [''/d/c.png'', ''/d/q.png''] \<and>
   records (process_bulk_images_excel (demo_world [''c.png'', ''q.png'']) never ''/d''
      ''extracted_name'') =
     [[(''Extracted Name'', ''Who:__me?''),
       (''Saved Path'', ''/d/Extracted_Texts/Who:__me?/extracted_text.txt'')]] \<and>
   excel_writes (trace (process_bulk_images_excel (demo_world [''c.png'', ''q.png'']) never ''/d''
      ''extracted_name'')) =
     [(''/d/Extracted_Texts/extracted_texts.xlsx'',
       [[(''Extracted Name'', ''Who:__me?''),
         (''Saved Path'', ''/d/Extracted_Texts/Who:__me?/extracted_text.txt'')]])]"
  by code_simp

section \<open>Cancellation\<close>

text \<open>
  C2 (as amended). \<open>LRD_QT_EXT.py\<close>, \<open>update.py\<close> and \<open>extra_excel.prompt.py\<close> read the
  cancellation flag before each file step. When the flag is first found set before file
  \<open>k\<close> of \<open>n\<close> (\<open>0 \<le> k < n\<close>), only the first \<open>k\<close> files are handed to the OCR engine.
  \<open>LRD_QT_EXT.py\<close> then leaves the loop with the \<open>k\<close> records of those files, writes the
  spreadsheet when \<open>k > 0\<close> and ends with the \<open>all_done\<close> signal of a completed run;
  \<open>update.py\<close> has written the \<open>k\<close> entries, \<open>extra_excel.prompt.py\<close> holds at most
  \<open>k\<close> records and writes no spreadsheet, and both end by reporting that the process was
  stopped and showing \<open>Progress: Canceled\<close> (their images are taken to open).
  \<open>extra_button.py\<close> has no cancellation flag: its loop hands every image of the folder
  to the engine.
\<close>

theorem cancellation_stops_at_boundary:
  assumes "k < length files" and "\<forall>j < k. \<not> flag j" and "flag k"
  shows
    "(OCRWorker_files w folder specific = Inr files \<and> load_reader w = Inr reader \<longrightarrow>
        column ''File Name'' (records (OCRWorker_run w flag lim folder specific)) = take k files \<and>
        length (records (OCRWorker_run w flag lim folder specific)) = k \<and>
        read_paths (trace (OCRWorker_run w flag lim folder specific)) =
          map (path_join folder) (take k files) \<and>
        excel_writes (trace (OCRWorker_run w flag lim folder specific)) =
          (if k \<noteq> 0 \<and> to_excel_error w = None
           then [(path_join (path_join folder ''Extracted_Texts'') ''extracted_texts.xlsx'',
                  records (OCRWorker_run w flag lim folder specific))]
           else []) \<and>
        last (trace (OCRWorker_run w flag lim folder specific)) =
          AllDone (records (OCRWorker_run w flag lim folder specific))
            (path_join folder ''Extracted_Texts'')) \<and>
     (isdir w folder \<and> listdir w folder = Inr names \<and> files = filter is_image_name names \<and>
      (\<forall>p. image_opens w p) \<longrightarrow>
        read_paths (process_bulk_images_update w flag folder) =
          map (path_join folder) (take k files) \<and>
        written_files (process_bulk_images_update w flag folder) =
          map (\<lambda>f. (path_join folder ''extracted_texts.txt'',
                     update_entry f (extract_text_from_image (ocr w) (path_join folder f))))
            (take k files) \<and>
        (\<exists>tr. process_bulk_images_update w flag folder = tr @ process_stopped) \<and>
        length (read_paths (trace (process_bulk_images_excel w flag folder opt))) = k \<and>
        length (records (process_bulk_images_excel w flag folder opt)) \<le> k \<and>
        excel_writes (trace (process_bulk_images_excel w flag folder opt)) = [] \<and>
        (\<exists>tr. trace (process_bulk_images_excel w flag folder opt) = tr @ process_stopped)) \<and>
     (isdir w folder \<and> listdir w folder = Inr names \<longrightarrow>
        read_paths (process_bulk_images_button w folder save_as_pdf) =
          map (path_join folder) (filter is_image_name names))"
proof (intro conjI impI)
  have st: "steps_taken flag 0 (length files) = k"
    using steps_taken_first [of k flag 0 "length files"] assms by simp
  have ne: "files \<noteq> []" using assms(1) by auto
  {
    assume a: "OCRWorker_files w folder specific = Inr files \<and> load_reader w = Inr reader"
    note S = qt_run_shape [of w folder specific files reader flag lim, unfolded st]
    from a ne S(1) show "column ''File Name'' (records (OCRWorker_run w flag lim folder specific)) =
        take k files" by blast
    from a ne S(2) show "length (records (OCRWorker_run w flag lim folder specific)) = k"
      by blast
    from a ne S(3) show "read_paths (trace (OCRWorker_run w flag lim folder specific)) =
          map (path_join folder) (take k files)" by blast
    from a ne S(5) show "excel_writes (trace (OCRWorker_run w flag lim folder specific)) =
          (if k \<noteq> 0 \<and> to_excel_error w = None
           then [(path_join (path_join folder ''Extracted_Texts'') ''extracted_texts.xlsx'',
                  records (OCRWorker_run w flag lim folder specific))]
           else [])" by blast
    from a ne S(6) show "last (trace (OCRWorker_run w flag lim folder specific)) =
          AllDone (records (OCRWorker_run w flag lim folder specific))
            (path_join folder ''Extracted_Texts'')" by blast
  }
  {
    assume b: "isdir w folder \<and> listdir w folder = Inr names \<and> files = filter is_image_name names \<and>
      (\<forall>p. image_opens w p)"
    then have d: "isdir w folder" and l: "listdir w folder = Inr names"
      and f: "files = filter is_image_name names" and o: "\<forall>p. image_opens w p"
      by blast+
    from assms(1) f have k: "k < length (filter is_image_name names)" by simp
    from ne f have nf: "filter is_image_name names \<noteq> []" by simp
    note U = update_run_cancelled [OF d l o k assms(2,3)]
    from U(1) f show "read_paths (process_bulk_images_update w flag folder) =
          map (path_join folder) (take k files)" by simp
    from U(2) f show "written_files (process_bulk_images_update w flag folder) =
          map (\<lambda>f. (path_join folder ''extracted_texts.txt'',
                     update_entry f (extract_text_from_image (ocr w) (path_join folder f))))
            (take k files)" by simp
    from U(3) show "\<exists>tr. process_bulk_images_update w flag folder = tr @ process_stopped" .
    note E = excel_run_open [OF d l nf o, of flag opt, unfolded f [symmetric] st]
    from E(1) show "length (read_paths (trace (process_bulk_images_excel w flag folder opt))) = k" .
    from E(2) show "length (records (process_bulk_images_excel w flag folder opt)) \<le> k" .
    from E(4) assms(1) show "excel_writes (trace (process_bulk_images_excel w flag folder opt)) = []"
      by simp
    from E(3) assms(1)
    show "\<exists>tr. trace (process_bulk_images_excel w flag folder opt) = tr @ process_stopped" by simp
  }
  {
    assume c: "isdir w folder \<and> listdir w folder = Inr names"
    then show "read_paths (process_bulk_images_button w folder save_as_pdf) =
          map (path_join folder) (filter is_image_name names)"
      using button_run_reads [of w folder names save_as_pdf] by blast
  }
qed

theorem cancellation_stops_at_boundary_witness:
  "(1::nat) < length [''a.png'', ''b.jpg'', ''c.png''] \<and>
   \<not> stop_after 1 0 \<and> stop_after 1 1 \<and>
   OCRWorker_files (demo_world [''a.png'', ''b.jpg'', ''c.png'']) ''/d'' None =
     Inr [''a.png'', ''b.jpg'', ''c.png''] \<and>
   load_reader (demo_world [''a.png'', ''b.jpg'', ''c.png'']) = Inr demo_ocr \<and>
   isdir (demo_world [''a.png'', ''b.jpg'', ''c.png'']) ''/d'' \<and>
   listdir (demo_world [''a.png'', ''b.jpg'', ''c.png'']) ''/d'' =
     Inr [''a.png'', ''b.jpg'', ''c.png''] \<and>
   [''a.png'', ''b.jpg'', ''c.png''] = filter is_image_name [''a.png'', ''b.jpg'', ''c.png''] \<and>
   (\<forall>p. image_opens (demo_world [''a.png'', ''b.jpg'', ''c.png'']) p) \<and>
   column ''File Name'' (records (OCRWorker_run (demo_world [''a.png'', ''b.jpg'', ''c.png''])
      (stop_after 1) None ''/d'' None)) = [''a.png''] \<and>
   read_paths (trace (OCRWorker_run (demo_world [''a.png'', ''b.jpg'', ''c.png''])
      (stop_after 1) None ''/d'' None)) = [''/d/a.png''] \<and>
   read_paths (process_bulk_images_update (demo_world [''a.png'', ''b.jpg'', ''c.png''])
      (stop_after 1) ''/d'') = [''/d/a.png''] \<and>
   length (read_paths (trace (process_bulk_images_excel
      (demo_world [''a.png'', ''b.jpg'', ''c.png'']) (stop_after 1) ''/d'' ''single_file''))) = 1 \<and>
   excel_writes (trace (process_bulk_images_excel
      (demo_world [''a.png'', ''b.jpg'', ''c.png'']) (stop_after 1) ''/d'' ''single_file'')) = [] \<and>
   read_paths (process_bulk_images_button (demo_world [''a.png'', ''b.jpg'', ''c.png'']) ''/d''
      False) = [''/d/a.png'', ''/d/b.jpg'', ''/d/c.png'']"
proof -
  have k: "(1::nat) < length [''a.png'', ''b.jpg'', ''c.png'']" by simp
  have n: "\<forall>j < 1. \<not> stop_after 1 j" by (simp add: stop_after_def)
  have s: "stop_after 1 1" by (simp add: stop_after_def)
  have f: "OCRWorker_files (demo_world [''a.png'', ''b.jpg'', ''c.png'']) ''/d'' None =
     Inr [''a.png'', ''b.jpg'', ''c.png'']"
    by code_simp
  have r: "load_reader (demo_world [''a.png'', ''b.jpg'', ''c.png'']) = Inr demo_ocr"
    and d: "isdir (demo_world [''a.png'', ''b.jpg'', ''c.png'']) ''/d''"
    and l: "listdir (demo_world [''a.png'', ''b.jpg'', ''c.png'']) ''/d'' =
     Inr [''a.png'', ''b.jpg'', ''c.png'']"
    and o: "\<forall>p. image_opens (demo_world [''a.png'', ''b.jpg'', ''c.png'']) p"
    by (simp_all add: demo_world_def)
  have i: "[''a.png'', ''b.jpg'', ''c.png''] = filter is_image_name [''a.png'', ''b.jpg'', ''c.png'']"
    by code_simp
  have p: "path_join ''/d'' ''a.png'' = ''/d/a.png''" "path_join ''/d'' ''b.jpg'' = ''/d/b.jpg''"
    "path_join ''/d'' ''c.png'' = ''/d/c.png''"
    by code_simp+
  note T = cancellation_stops_at_boundary [OF k n s,
      where w = "demo_world [''a.png'', ''b.jpg'', ''c.png'']" and folder = "''/d''"
      and specific = None and reader = demo_ocr and lim = None
      and names = "[''a.png'', ''b.jpg'', ''c.png'']" and opt = "''single_file''"
      and save_as_pdf = False]
  note T1 = mp [OF T [THEN conjunct1] conjI [OF f r]]
  note T2 = mp [OF T [THEN conjunct2, THEN conjunct1] conjI [OF d conjI [OF l conjI [OF i o]]]]
  note T3 = mp [OF T [THEN conjunct2, THEN conjunct2] conjI [OF d l]]
  from T1 have A: "column ''File Name'' (records (OCRWorker_run (demo_world [''a.png'', ''b.jpg'', ''c.png''])
      (stop_after 1) None ''/d'' None)) = [''a.png'']"
    "read_paths (trace (OCRWorker_run (demo_world [''a.png'', ''b.jpg'', ''c.png''])
      (stop_after 1) None ''/d'' None)) = [''/d/a.png'']"
    by (simp_all add: p)
  from T2 have B: "read_paths (process_bulk_images_update (demo_world [''a.png'', ''b.jpg'', ''c.png''])
      (stop_after 1) ''/d'') = [''/d/a.png'']"
    "length (read_paths (trace (process_bulk_images_excel
      (demo_world [''a.png'', ''b.jpg'', ''c.png'']) (stop_after 1) ''/d'' ''single_file''))) = 1"
    "excel_writes (trace (process_bulk_images_excel
      (demo_world [''a.png'', ''b.jpg'', ''c.png'']) (stop_after 1) ''/d'' ''single_file'')) = []"
    by (simp_all add: p)
  from T3 have C: "read_paths (process_bulk_images_button (demo_world [''a.png'', ''b.jpg'', ''c.png'']) ''/d''
      False) = [''/d/a.png'', ''/d/b.jpg'', ''/d/c.png'']"
    unfolding i [symmetric] by (simp add: p)
  have n0: "\<not> stop_after 1 0" by (simp add: stop_after_def)
  from k n0 s f r d l i o A B C show ?thesis by blast
qed

text \<open>
  \<open>process_bulk_images\<close> of \<open>extra_button.py\<close> takes no flag and reads none: whatever is
  asked while it runs, a folder of three images has all three processed and written.
\<close>

theorem button_ignores_cancellation:
  "read_paths (process_bulk_images_button (demo_world [''a.png'', ''b.jpg'', ''c.png'']) ''/d''
      False) = [''/d/a.png'', ''/d/b.jpg'', ''/d/c.png''] \<and>
   opened_files (process_bulk_images_button (demo_world [''a.png'', ''b.jpg'', ''c.png'']) ''/d''
      False) = [''/d/a.txt'', ''/d/b.txt'', ''/d/c.txt''] \<and>
   progress_values (process_bulk_images_button (demo_world [''a.png'', ''b.jpg'', ''c.png''])
      ''/d'' False) = [1, 2, 3]"
  by code_simp

section \<open>The aggregate artifact\<close>

text \<open>
  C4 (as amended). In \<open>LRD_QT_EXT.py\<close>, however the loop stops, the spreadsheet is written
  exactly when at least one record exists (and \<open>to_excel\<close> does not raise); a run
  interrupted before its first file has no record and writes none, any other run has a
  record. In \<open>extra_excel.prompt.py\<close> the spreadsheet is written only when the loop has
  run over every file; a cancelled run returns without writing it, whatever records it
  holds. In \<open>update.py\<close> the aggregate text file is opened for writing before the loop,
  so it is created, empty, even when cancellation is immediate. (For the two tkinter
  variants the images are taken to open.)
\<close>

theorem aggregate_artifact_written:
  "(OCRWorker_files w folder specific = Inr files \<and> files \<noteq> [] \<and> load_reader w = Inr reader
      \<longrightarrow> excel_writes (trace (OCRWorker_run w flag lim folder specific)) =
            (if records (OCRWorker_run w flag lim folder specific) \<noteq> [] \<and>
                to_excel_error w = None
             then [(path_join (path_join folder ''Extracted_Texts'') ''extracted_texts.xlsx'',
                    records (OCRWorker_run w flag lim folder specific))]
             else []) \<and>
          (records (OCRWorker_run w flag lim folder specific) = [] \<longleftrightarrow> flag 0)) \<and>
   (isdir w folder \<and> listdir w folder = Inr names \<and> filter is_image_name names \<noteq> [] \<and>
    (\<forall>p. image_opens w p)
      \<longrightarrow> excel_writes (trace (process_bulk_images_excel w flag folder opt)) =
            (if \<exists>j < length (filter is_image_name names). flag j then []
             else [(path_join (path_join folder ''Extracted_Texts'') ''extracted_texts.xlsx'',
                    records (process_bulk_images_excel w flag folder opt))])) \<and>
   (isdir w folder \<and> listdir w folder = Inr names \<and> filter is_image_name names \<noteq> []
      \<longrightarrow> opened_files (process_bulk_images_update w flag folder) =
            [path_join folder ''extracted_texts.txt''])"
proof (intro conjI impI)
  {
    assume a: "OCRWorker_files w folder specific = Inr files \<and> files \<noteq> [] \<and>
      load_reader w = Inr reader"
    then have f: "OCRWorker_files w folder specific = Inr files" and ne: "files \<noteq> []"
      and r: "load_reader w = Inr reader" by blast+
    note S = qt_run_shape [OF f ne r, of flag lim]
    have z: "steps_taken flag 0 (length files) = 0 \<longleftrightarrow> flag 0"
    proof (cases "flag 0")
      case True
      then show ?thesis by (simp add: steps_taken_flagged)
    next
      case False
      from ne have "0 < length files" by simp
      with False have "0 < steps_taken flag 0 (length files)"
        by (rule steps_taken_unflagged)
      with False show ?thesis by simp
    qed
    have e: "records (OCRWorker_run w flag lim folder specific) = [] \<longleftrightarrow>
        steps_taken flag 0 (length files) = 0"
      using S(2) by (metis length_0_conv)
    from e z show "records (OCRWorker_run w flag lim folder specific) = [] \<longleftrightarrow> flag 0"
      by simp
    from S(5) e show "excel_writes (trace (OCRWorker_run w flag lim folder specific)) =
            (if records (OCRWorker_run w flag lim folder specific) \<noteq> [] \<and>
                to_excel_error w = None
             then [(path_join (path_join folder ''Extracted_Texts'') ''extracted_texts.xlsx'',
                    records (OCRWorker_run w flag lim folder specific))]
             else [])"
      by simp
  }
  {
    assume b: "isdir w folder \<and> listdir w folder = Inr names \<and>
      filter is_image_name names \<noteq> [] \<and> (\<forall>p. image_opens w p)"
    then have d: "isdir w folder" and l: "listdir w folder = Inr names"
      and nf: "filter is_image_name names \<noteq> []" and o: "\<forall>p. image_opens w p"
      by blast+
    note E = excel_run_open [OF d l nf o, of flag opt]
    from E(4) show "excel_writes (trace (process_bulk_images_excel w flag folder opt)) =
            (if \<exists>j < length (filter is_image_name names). flag j then []
             else [(path_join (path_join folder ''Extracted_Texts'') ''extracted_texts.xlsx'',
                    records (process_bulk_images_excel w flag folder opt))])"
      using steps_taken_less_iff [of flag 0 "length (filter is_image_name names)"] by simp
  }
  {
    assume c: "isdir w folder \<and> listdir w folder = Inr names \<and>
      filter is_image_name names \<noteq> []"
    then show "opened_files (process_bulk_images_update w flag folder) =
            [path_join folder ''extracted_texts.txt'']"
      using update_run_progress(2) [of w folder names flag] by blast
  }
qed

theorem aggregate_artifact_written_witness:
  "OCRWorker_files (demo_world [''a.png'', ''b.jpg'']) ''/d'' None = Inr [''a.png'', ''b.jpg''] \<and>
   [''a.png'', ''b.jpg''] \<noteq> [] \<and>
   load_reader (demo_world [''a.png'', ''b.jpg'']) = Inr demo_ocr \<and>
   isdir (demo_world [''a.png'', ''b.jpg'']) ''/d'' \<and>
   listdir (demo_world [''a.png'', ''b.jpg'']) ''/d'' = Inr [''a.png'', ''b.jpg''] \<and>
   filter is_image_name [''a.png'', ''b.jpg''] \<noteq> [] \<and>
   (\<forall>p. image_opens (demo_world [''a.png'', ''b.jpg'']) p) \<and>
   records (OCRWorker_run (demo_world [''a.png'', ''b.jpg'']) (stop_after 1) None ''/d'' None) \<noteq> [] \<and>
   excel_writes (trace (OCRWorker_run (demo_world [''a.png'', ''b.jpg'']) (stop_after 1) None
      ''/d'' None)) =
     [(''/d/Extracted_Texts/extracted_texts.xlsx'',
       records (OCRWorker_run (demo_world [''a.png'', ''b.jpg'']) (stop_after 1) None ''/d'' None))] \<and>
   excel_writes (trace (process_bulk_images_excel (demo_world [''a.png'', ''b.jpg''])
      (stop_after 1) ''/d'' ''single_file'')) = [] \<and>
   opened_files (process_bulk_images_update (demo_world [''a.png'', ''b.jpg'']) (stop_after 0)
      ''/d'') = [''/d/extracted_texts.txt'']"
proof -
  have f: "OCRWorker_files (demo_world [''a.png'', ''b.jpg'']) ''/d'' None = Inr [''a.png'', ''b.jpg'']"
    by code_simp
  have ne: "[''a.png'', ''b.jpg''] \<noteq> []" by simp
  have r: "load_reader (demo_world [''a.png'', ''b.jpg'']) = Inr demo_ocr"
    and d: "isdir (demo_world [''a.png'', ''b.jpg'']) ''/d''"
    and l: "listdir (demo_world [''a.png'', ''b.jpg'']) ''/d'' = Inr [''a.png'', ''b.jpg'']"
    and o: "\<forall>p. image_opens (demo_world [''a.png'', ''b.jpg'']) p"
    and x: "to_excel_error (demo_world [''a.png'', ''b.jpg'']) = None"
    by (simp_all add: demo_world_def)
  have i: "filter is_image_name [''a.png'', ''b.jpg''] = [''a.png'', ''b.jpg'']"
    by code_simp
  then have nf: "filter is_image_name [''a.png'', ''b.jpg''] \<noteq> []" by simp
  have p: "path_join (path_join ''/d'' ''Extracted_Texts'') ''extracted_texts.xlsx'' =
      ''/d/Extracted_Texts/extracted_texts.xlsx''"
    "path_join ''/d'' ''extracted_texts.txt'' = ''/d/extracted_texts.txt''"
    by code_simp+
  have s: "\<not> stop_after 1 0" "\<exists>j < length (filter is_image_name [''a.png'', ''b.jpg'']). stop_after 1 j"
    unfolding i by (auto simp: stop_after_def)
  note T = aggregate_artifact_written [where w = "demo_world [''a.png'', ''b.jpg'']"
      and folder = "''/d''" and specific = None and files = "[''a.png'', ''b.jpg'']"
      and reader = demo_ocr and flag = "stop_after 1" and lim = None
      and names = "[''a.png'', ''b.jpg'']" and opt = "''single_file''"]
  note T0 = aggregate_artifact_written [where w = "demo_world [''a.png'', ''b.jpg'']"
      and folder = "''/d''" and flag = "stop_after 0" and names = "[''a.png'', ''b.jpg'']"]
  note T1 = mp [OF T [THEN conjunct1] conjI [OF f conjI [OF ne r]]]
  note T2 = mp [OF T [THEN conjunct2, THEN conjunct1] conjI [OF d conjI [OF l conjI [OF nf o]]]]
  note T3 = mp [OF T0 [THEN conjunct2, THEN conjunct2] conjI [OF d conjI [OF l nf]]]
  from T1 s(1) have A: "records (OCRWorker_run (demo_world [''a.png'', ''b.jpg'']) (stop_after 1) None ''/d'' None) \<noteq> []"
    by blast
  from T1 A x have B: "excel_writes (trace (OCRWorker_run (demo_world [''a.png'', ''b.jpg'']) (stop_after 1) None
      ''/d'' None)) =
     [(''/d/Extracted_Texts/extracted_texts.xlsx'',
       records (OCRWorker_run (demo_world [''a.png'', ''b.jpg'']) (stop_after 1) None ''/d'' None))]"
    by (simp add: p)
  from T2 s(2) have C: "excel_writes (trace (process_bulk_images_excel (demo_world [''a.png'', ''b.jpg''])
      (stop_after 1) ''/d'' ''single_file'')) = []"
    by presburger
  from T3 have D: "opened_files (process_bulk_images_update (demo_world [''a.png'', ''b.jpg'']) (stop_after 0)
      ''/d'') = [''/d/extracted_texts.txt'']"
    by (simp add: p)
  from f ne r d l nf o A B C D show ?thesis by blast
qed

text \<open>
  Cancelled after the first of two files, \<open>extra_excel.prompt.py\<close> holds one record and
  writes no spreadsheet. Cancelled before the first file, \<open>update.py\<close> has processed
  nothing and has created its aggregate text file.
\<close>

theorem aggregate_artifact_differs:
  "records (process_bulk_images_excel (demo_world [''a.png'', ''b.jpg'']) (stop_after 1) ''/d''
      ''single_file'') =
     [[(''File Name'', ''a.png''), (''Extracted Text'', ''Hello World'')]] \<and>
   excel_writes (trace (process_bulk_images_excel (demo_world [''a.png'', ''b.jpg''])
      (stop_after 1) ''/d'' ''single_file'')) = [] \<and>
   read_paths (process_bulk_images_update (demo_world [''a.png'', ''b.jpg'']) (stop_after 0)
      ''/d'') = [] \<and>
   opened_files (process_bulk_images_update (demo_world [''a.png'', ''b.jpg'']) (stop_after 0)
      ''/d'') = [''/d/extracted_texts.txt'']"
  by code_simp

section \<open>Progress counts\<close>

lemma excel_loop_progress:
  "\<exists>m \<le> length fs.
     progress_values (trace (snd (excel_loop w stop opt out n i fs st))) =
       progress_values (trace st) @ map Suc [i ..< i + m] @
         (if fst (excel_loop w stop opt out n i fs st) = Returned then [0] else []) \<and>
     progress_maxima (trace (snd (excel_loop w stop opt out n i fs st))) =
       progress_maxima (trace st) \<and>
     (LabelCanceled \<in> set (trace (snd (excel_loop w stop opt out n i fs st))) \<longleftrightarrow>
        LabelCanceled \<in> set (trace st) \<or> fst (excel_loop w stop opt out n i fs st) = Returned)"
proof (induction fs arbitrary: i st)
  case Nil
  show ?case by simp
next
  case (Cons f fs)
  show ?case
  proof (cases "stop i")
    case True
    then show ?thesis
      by (intro exI [of _ 0])
        (simp add: emit_def collect process_stopped_collect, simp add: process_stopped_def)
  next
    case False
    note ns = False
    define t where "t = extract_text_from_image (ocr w) (path_join (folder_path st) f)"
    define st2 where "st2 = emit [SetValue (i + 1), LabelProgress (i + 1) n]
        (excel_save opt out f t (emit [ReadText (path_join (folder_path st) f)] st))"
    define st1 where "st1 = emit [ImagePreview (path_join (folder_path st) f), TextPreview t] st2"
    have sv: "progress_values (trace (excel_save opt out f t s)) = progress_values (trace s)"
      "progress_maxima (trace (excel_save opt out f t s)) = progress_maxima (trace s)"
      "LabelCanceled \<in> set (trace (excel_save opt out f t s)) \<longleftrightarrow> LabelCanceled \<in> set (trace s)"
      for s
      by (auto simp: excel_save_def Let_def emit_def collect)
    have pv: "progress_values (trace st2) = progress_values (trace st) @ [Suc i]"
      and pm: "progress_maxima (trace st2) = progress_maxima (trace st)"
      and pc: "LabelCanceled \<in> set (trace st2) \<longleftrightarrow> LabelCanceled \<in> set (trace st)"
      by (simp_all add: st2_def emit_def collect sv [unfolded emit_def])
    show ?thesis
    proof (cases "image_opens w (path_join (folder_path st) f)")
      case False
      with ns have loop: "excel_loop w stop opt out n i (f # fs) st =
          (Raised, emit [Uncaught ''Image.open''] st2)"
        by (simp add: Let_def st2_def t_def)
      show ?thesis
        unfolding loop
        by (intro exI [of _ 1]) (simp add: emit_def collect pv pm pc)
    next
      case True
      with ns have loop: "excel_loop w stop opt out n i (f # fs) st =
          excel_loop w stop opt out n (Suc i) fs st1"
        by (simp add: Let_def st1_def st2_def t_def)
      have pv1: "progress_values (trace st1) = progress_values (trace st) @ [Suc i]"
        and pm1: "progress_maxima (trace st1) = progress_maxima (trace st)"
        and pc1: "LabelCanceled \<in> set (trace st1) \<longleftrightarrow> LabelCanceled \<in> set (trace st)"
        by (simp_all add: st1_def emit_def collect pv pm pc)
      from Cons [of "Suc i" st1]
      obtain m where m: "m \<le> length fs"
        "progress_values (trace (snd (excel_loop w stop opt out n (Suc i) fs st1))) =
           progress_values (trace st1) @ map Suc [Suc i ..< Suc i + m] @
           (if fst (excel_loop w stop opt out n (Suc i) fs st1) = Returned then [0] else [])"
        "progress_maxima (trace (snd (excel_loop w stop opt out n (Suc i) fs st1))) =
           progress_maxima (trace st1)"
        "LabelCanceled \<in> set (trace (snd (excel_loop w stop opt out n (Suc i) fs st1))) \<longleftrightarrow>
           LabelCanceled \<in> set (trace st1) \<or>
           fst (excel_loop w stop opt out n (Suc i) fs st1) = Returned"
        by blast
      have up: "[i ..< Suc (i + m)] = i # [Suc i ..< Suc (i + m)]"
        by (simp add: upt_rec [of i])
      show ?thesis
        unfolding loop
        by (intro exI [of _ "Suc m"]) (simp add: m pv1 pm1 pc1 up del: upt_Suc)
    qed
  qed
qed

lemma button_loop_progress:
  "progress_values (effects (button_loop w folder pdf i fs st)) =
     progress_values (effects st) @ map Suc [i ..< i + length fs] \<and>
   progress_maxima (effects (button_loop w folder pdf i fs st)) = progress_maxima (effects st)"
proof (induction fs arbitrary: i st)
  case Nil
  show ?case by simp
next
  case (Cons f fs)
  define t where "t = extract_text_from_image (ocr w) (path_join folder f)"
  define st0 where "st0 = st\<lparr>effects := effects st @
      [ReadText (path_join folder f), OpenWrite (path_join folder (splitext_root f @ ''.txt'')),
       Write (path_join folder (splitext_root f @ ''.txt'')) t]\<rparr>"
  define st1 where "st1 =
      (if pdf then st0\<lparr>pages := pages st0 @ [f @ [CHR '':'', CHR 0x0A, CHR 0x0A] @ t]\<rparr> else st0)
        \<lparr>effects := effects (if pdf then st0\<lparr>pages := pages st0 @
            [f @ [CHR '':'', CHR 0x0A, CHR 0x0A] @ t]\<rparr> else st0) @ [SetValue (i + 1)]\<rparr>"
  have loop: "button_loop w folder pdf i (f # fs) st = button_loop w folder pdf (Suc i) fs st1"
    by (simp add: Let_def st1_def st0_def t_def)
  have pv: "progress_values (effects st1) = progress_values (effects st) @ [Suc i]"
    and pm: "progress_maxima (effects st1) = progress_maxima (effects st)"
    by (simp_all add: st1_def st0_def collect)
  have up: "[i ..< Suc (i + length fs)] = i # [Suc i ..< Suc (i + length fs)]"
    by (rule upt_conv_Cons) simp
  from Cons [of "Suc i" st1] show ?case
    unfolding loop by (simp add: pv pm up del: upt_Suc)
qed

lemma excel_run_progress:
  assumes "isdir w folder" and "listdir w folder = Inr names"
    and "filter is_image_name names \<noteq> []"
  shows "progress_maxima (trace (process_bulk_images_excel w stop folder opt)) =
           [length (filter is_image_name names)]"
    and "\<exists>m \<le> length (filter is_image_name names).
           progress_values (trace (process_bulk_images_excel w stop folder opt)) =
             map Suc [0 ..< m] @
             (if LabelCanceled \<in> set (trace (process_bulk_images_excel w stop folder opt))
              then [0] else [])"
proof -
  define files where "files = filter is_image_name names"
  define out where "out = path_join folder ''Extracted_Texts''"
  define st0 where "st0 = \<lparr>records = [],
      trace = [SetMaximum (length files), LabelProgress 0 (length files), Makedirs out],
      folder_path = folder\<rparr>"
  define res where "res = excel_loop w stop opt out (length files) 0 files st0"
  from excel_loop_progress [of files w stop opt out "length files" 0 st0]
  obtain m where m: "m \<le> length files"
    "progress_values (trace (snd res)) =
       map Suc [0 ..< m] @ (if fst res = Returned then [0] else [])"
    "progress_maxima (trace (snd res)) = [length files]"
    "LabelCanceled \<in> set (trace (snd res)) \<longleftrightarrow> fst res = Returned"
    by (auto simp: res_def st0_def collect)
  have run: "process_bulk_images_excel w stop folder opt =
      (if fst res = Exhausted
       then emit [ToExcel (path_join out ''extracted_texts.xlsx'') (records (snd res)),
                  ShowInfo ''Success'' (''All texts have been extracted and saved in '' @ out),
                  Startfile out] (snd res)
       else snd res)"
    using excel_run_unfold [OF assms(1-3), of stop opt]
    by (simp add: files_def [symmetric] out_def [symmetric] st0_def [symmetric]
          res_def [symmetric] split: prod.splits loop_exit.splits)
  show "progress_maxima (trace (process_bulk_images_excel w stop folder opt)) =
           [length (filter is_image_name names)]"
    unfolding run using m(3) by (simp add: emit_def collect files_def)
  have "progress_values (trace (process_bulk_images_excel w stop folder opt)) =
             map Suc [0 ..< m] @
             (if LabelCanceled \<in> set (trace (process_bulk_images_excel w stop folder opt))
              then [0] else [])"
    unfolding run using m(2,4) by (auto simp: emit_def collect)
  with m(1) show "\<exists>m \<le> length (filter is_image_name names).
           progress_values (trace (process_bulk_images_excel w stop folder opt)) =
             map Suc [0 ..< m] @
             (if LabelCanceled \<in> set (trace (process_bulk_images_excel w stop folder opt))
              then [0] else [])"
    unfolding files_def by blast
qed

lemma button_run_progress:
  assumes "isdir w folder" and "listdir w folder = Inr names"
    and "filter is_image_name names \<noteq> []"
  shows "progress_maxima (process_bulk_images_button w folder pdf) =
           [length (filter is_image_name names)]"
    and "progress_values (process_bulk_images_button w folder pdf) =
           map Suc [0 ..< length (filter is_image_name names)]"
  using assms button_loop_progress [of w folder pdf 0 "filter is_image_name names"
        "\<lparr>pages = [], effects = [SetMaximum (length (filter is_image_name names))]\<rparr>"]
  by (cases pdf; simp add: process_bulk_images_button_def Let_def collect)+

text \<open>
  C9 (as amended). The total is fixed when the job starts: \<open>LRD_QT_EXT.py\<close> signals the
  number of files as total with every progress step, and each tkinter variant sets the
  maximum of its progress bar once, to the number of files. The processed count advances
  by one with every file step, from 1 up to at most the total, so while files are
  processed it never decreases and never exceeds the total. When a run of \<open>update.py\<close>
  or \<open>extra_excel.prompt.py\<close> is cancelled, it then resets the processed count shown to 0.
\<close>

theorem progress_counts:
  "(OCRWorker_files w folder specific = Inr files \<and> files \<noteq> [] \<and> load_reader w = Inr reader
      \<longrightarrow> progress_steps (trace (OCRWorker_run w flag lim folder specific)) =
            map (\<lambda>j. (Suc j, length files))
              [0 ..< length (records (OCRWorker_run w flag lim folder specific))] \<and>
          length (records (OCRWorker_run w flag lim folder specific)) \<le> length files) \<and>
   (isdir w folder \<and> listdir w folder = Inr names \<and> filter is_image_name names \<noteq> []
      \<longrightarrow> progress_maxima (process_bulk_images_update w flag folder) =
            [length (filter is_image_name names)] \<and>
          (\<exists>m \<le> length (filter is_image_name names).
             progress_values (process_bulk_images_update w flag folder) =
               map Suc [0 ..< m] @
               (if LabelCanceled \<in> set (process_bulk_images_update w flag folder)
                then [0] else [])) \<and>
          progress_maxima (trace (process_bulk_images_excel w flag folder opt)) =
            [length (filter is_image_name names)] \<and>
          (\<exists>m \<le> length (filter is_image_name names).
             progress_values (trace (process_bulk_images_excel w flag folder opt)) =
               map Suc [0 ..< m] @
               (if LabelCanceled \<in> set (trace (process_bulk_images_excel w flag folder opt))
                then [0] else [])) \<and>
          progress_maxima (process_bulk_images_button w folder save_as_pdf) =
            [length (filter is_image_name names)] \<and>
          progress_values (process_bulk_images_button w folder save_as_pdf) =
            map Suc [0 ..< length (filter is_image_name names)])"
proof (intro conjI impI)
  {
    assume a: "OCRWorker_files w folder specific = Inr files \<and> files \<noteq> [] \<and>
      load_reader w = Inr reader"
    then have f: "OCRWorker_files w folder specific = Inr files" and ne: "files \<noteq> []"
      and r: "load_reader w = Inr reader" by blast+
    note S = qt_run_shape [OF f ne r, of flag lim]
    from S(4) S(2) show "progress_steps (trace (OCRWorker_run w flag lim folder specific)) =
            map (\<lambda>j. (Suc j, length files))
              [0 ..< length (records (OCRWorker_run w flag lim folder specific))]"
      by simp
    from S(2) show "length (records (OCRWorker_run w flag lim folder specific)) \<le> length files"
      by (simp add: steps_taken_le)
  }
  {
    assume b: "isdir w folder \<and> listdir w folder = Inr names \<and>
      filter is_image_name names \<noteq> []"
    then have d: "isdir w folder" and l: "listdir w folder = Inr names"
      and nf: "filter is_image_name names \<noteq> []" by blast+
    show "progress_maxima (process_bulk_images_update w flag folder) =
            [length (filter is_image_name names)]"
      by (rule update_run_progress(1) [OF d l nf])
    show "\<exists>m \<le> length (filter is_image_name names).
             progress_values (process_bulk_images_update w flag folder) =
               map Suc [0 ..< m] @
               (if LabelCanceled \<in> set (process_bulk_images_update w flag folder)
                then [0] else [])"
      by (rule update_run_progress(3) [OF d l nf])
    show "progress_maxima (trace (process_bulk_images_excel w flag folder opt)) =
            [length (filter is_image_name names)]"
      by (rule excel_run_progress(1) [OF d l nf])
    show "\<exists>m \<le> length (filter is_image_name names).
             progress_values (trace (process_bulk_images_excel w flag folder opt)) =
               map Suc [0 ..< m] @
               (if LabelCanceled \<in> set (trace (process_bulk_images_excel w flag folder opt))
                then [0] else [])"
      by (rule excel_run_progress(2) [OF d l nf])
    show "progress_maxima (process_bulk_images_button w folder save_as_pdf) =
            [length (filter is_image_name names)]"
      by (rule button_run_progress(1) [OF d l nf])
    show "progress_values (process_bulk_images_button w folder save_as_pdf) =
            map Suc [0 ..< length (filter is_image_name names)]"
      by (rule button_run_progress(2) [OF d l nf])
  }
qed

theorem progress_counts_witness:
  "OCRWorker_files (demo_world [''a.png'', ''b.jpg'']) ''/d'' None = Inr [''a.png'', ''b.jpg''] \<and>
   [''a.png'', ''b.jpg''] \<noteq> [] \<and>
   load_reader (demo_world [''a.png'', ''b.jpg'']) = Inr demo_ocr \<and>
   isdir (demo_world [''a.png'', ''b.jpg'']) ''/d'' \<and>
   listdir (demo_world [''a.png'', ''b.jpg'']) ''/d'' = Inr [''a.png'', ''b.jpg''] \<and>
   filter is_image_name [''a.png'', ''b.jpg''] \<noteq> [] \<and>
   progress_steps (trace (OCRWorker_run (demo_world [''a.png'', ''b.jpg'']) never None ''/d''
      None)) =
     map (\<lambda>j. (Suc j, 2))
       [0 ..< length (records (OCRWorker_run (demo_world [''a.png'', ''b.jpg'']) never None ''/d''
          None))] \<and>
   progress_steps (trace (OCRWorker_run (demo_world [''a.png'', ''b.jpg'']) never None ''/d''
      None)) = [(1, 2), (2, 2)] \<and>
   progress_maxima (process_bulk_images_update (demo_world [''a.png'', ''b.jpg'']) never ''/d'') =
     [2] \<and>
   progress_values (process_bulk_images_update (demo_world [''a.png'', ''b.jpg'']) never ''/d'') =
     [1, 2] \<and>
   progress_values (process_bulk_images_button (demo_world [''a.png'', ''b.jpg'']) ''/d'' False) =
     [1, 2]"
proof -
  have f: "OCRWorker_files (demo_world [''a.png'', ''b.jpg'']) ''/d'' None = Inr [''a.png'', ''b.jpg'']"
    by code_simp
  have ne: "[''a.png'', ''b.jpg''] \<noteq> []" by simp
  have r: "load_reader (demo_world [''a.png'', ''b.jpg'']) = Inr demo_ocr"
    and d: "isdir (demo_world [''a.png'', ''b.jpg'']) ''/d''"
    and l: "listdir (demo_world [''a.png'', ''b.jpg'']) ''/d'' = Inr [''a.png'', ''b.jpg'']"
    by (simp_all add: demo_world_def)
  have i: "filter is_image_name [''a.png'', ''b.jpg''] = [''a.png'', ''b.jpg'']"
    by code_simp
  then have nf: "filter is_image_name [''a.png'', ''b.jpg''] \<noteq> []" by simp
  have e: "progress_steps (trace (OCRWorker_run (demo_world [''a.png'', ''b.jpg'']) never None ''/d''
      None)) = [(1, 2), (2, 2)]"
    "progress_values (process_bulk_images_update (demo_world [''a.png'', ''b.jpg'']) never ''/d'') =
     [1, 2]"
    by code_simp+
  note T = progress_counts [where w = "demo_world [''a.png'', ''b.jpg'']"
      and folder = "''/d''" and specific = None and files = "[''a.png'', ''b.jpg'']"
      and reader = demo_ocr and flag = never and lim = None
      and names = "[''a.png'', ''b.jpg'']" and opt = "''single_file''" and save_as_pdf = False]
  note T1 = mp [OF T [THEN conjunct1] conjI [OF f conjI [OF ne r]]]
  note T2 = mp [OF T [THEN conjunct2] conjI [OF d conjI [OF l nf]]]
  from T1 have A: "progress_steps (trace (OCRWorker_run (demo_world [''a.png'', ''b.jpg'']) never None ''/d''
      None)) =
     map (\<lambda>j. (Suc j, 2))
       [0 ..< length (records (OCRWorker_run (demo_world [''a.png'', ''b.jpg'']) never None ''/d''
          None))]"
    by simp
  from T2 have B: "progress_maxima (process_bulk_images_update (demo_world [''a.png'', ''b.jpg'']) never ''/d'') =
     [2]"
    "progress_values (process_bulk_images_button (demo_world [''a.png'', ''b.jpg'']) ''/d'' False) =
     [1, 2]"
    unfolding i by simp_all
  from f ne r d l nf A e B show ?thesis by blast
qed

text \<open>
  Cancelled after the first of two files, \<open>update.py\<close> sets the progress bar's value to 1
  and then to 0.
\<close>

theorem progress_reset_on_cancel:
  "progress_values (process_bulk_images_update (demo_world [''a.png'', ''b.jpg''])
      (stop_after 1) ''/d'') = [1, 0] \<and>
   progress_values (trace (process_bulk_images_excel (demo_world [''a.png'', ''b.jpg''])
      (stop_after 1) ''/d'' ''single_file'')) = [1, 0]"
  by code_simp

end
